theory Spec2Isabelle
  imports Complex_Main
begin

section \<open>Conventions of the embedding\<close>

text \<open>
  The curve engine of LNLib (\<^verbatim>\<open>NurbsCurve.cpp\<close>) is embedded function by function.
  A C++ \<^verbatim>\<open>double\<close> is a \<^typ>\<open>real\<close> (rounding is not modelled), an \<^verbatim>\<open>int\<close> is an
  \<^typ>\<open>int\<close>, and a \<^verbatim>\<open>std::vector\<close> is a list that is read and written by index.
  Indices and loop counters stay within the sizes of the vectors; where the source adds
  two arguments of the caller, the sum is checked against the range of the 32-bit
  \<^verbatim>\<open>int\<close> (\<open>int_add\<close> below).

  Three things can go wrong in a call. A \<^verbatim>\<open>VALIDATE_ARGUMENT\<close> macro throws; the exception
  carries, in the model, the caller's output buffers as they are at the throw.
  An \<^verbatim>\<open>operator[]\<close> outside the vector has no defined behaviour in C++; the model stops
  there with \<open>IndexOutOfRange\<close> and records no state. A signed sum outside the range of
  \<^verbatim>\<open>int\<close> has no defined behaviour either; the model stops there with \<open>SignedOverflow\<close>.
\<close>

datatype 'b error = InvalidArgument 'b | LengthError | IndexOutOfRange | SignedOverflow

definition bindE :: "'e + 'a \<Rightarrow> ('a \<Rightarrow> 'e + 'c) \<Rightarrow> 'e + 'c" where
  "bindE m f = (case m of Inl e \<Rightarrow> Inl e | Inr a \<Rightarrow> f a)"

text \<open>\<^verbatim>\<open>v[i]\<close> as a read, \<^verbatim>\<open>v[i] = x\<close> as a write, \<^verbatim>\<open>v.resize(n)\<close> with the value
  that new slots receive, \<^verbatim>\<open>v.pop_back()\<close>.\<close>

definition vget :: "'a list \<Rightarrow> int \<Rightarrow> 'b error + 'a" where
  "vget xs i = (if 0 \<le> i \<and> i < int (length xs) then Inr (xs ! nat i) else Inl IndexOutOfRange)"

definition vset :: "'a list \<Rightarrow> int \<Rightarrow> 'a \<Rightarrow> 'b error + 'a list" where
  "vset xs i v = (if 0 \<le> i \<and> i < int (length xs) then Inr (xs[nat i := v]) else Inl IndexOutOfRange)"

definition vresize :: "'a list \<Rightarrow> int \<Rightarrow> 'a \<Rightarrow> 'b error + 'a list" where
  "vresize xs n d =
     (if n < 0 then Inl LengthError
      else Inr (take (nat n) xs @ replicate (nat n - length xs) d))"

definition vpop_back :: "'a list \<Rightarrow> 'b error + 'a list" where
  "vpop_back xs = (if xs = [] then Inl IndexOutOfRange else Inr (butlast xs))"

text \<open>\<^verbatim>\<open>a + b\<close> on two \<^verbatim>\<open>int\<close>s. (In the builds of the library an overflowing sum wraps
  around to a negative number.)\<close>

definition int_add :: "int \<Rightarrow> int \<Rightarrow> 'b error + int" where
  "int_add a b =
     (if - 2147483648 \<le> a + b \<and> a + b \<le> 2147483647 then Inr (a + b) else Inl SignedOverflow)"

text \<open>A counted \<^verbatim>\<open>for\<close> loop whose body changes neither the counter nor the bound:
  the list holds the values the counter takes, in order.\<close>

fun forE :: "int list \<Rightarrow> (int \<Rightarrow> 's \<Rightarrow> 'e + 's) \<Rightarrow> 's \<Rightarrow> 'e + 's" where
  "forE [] body s = Inr s"
| "forE (i # is) body s = (case body i s of Inl e \<Rightarrow> Inl e | Inr s' \<Rightarrow> forE is body s')"

text \<open>\<^verbatim>\<open>for (int i = start; i < v.size(); i++)\<close>: the comparison is made in the unsigned
  type of \<^verbatim>\<open>size()\<close>, where a negative \<open>i\<close> is a huge number, so a loop that starts below
  zero does not run at all.\<close>

definition upto_size :: "int \<Rightarrow> nat \<Rightarrow> int list" where
  "upto_size start n = (if start < 0 then [] else [start..int n - 1])"

subsection \<open>Points\<close>

text \<open>Modelled from the spec: \<^verbatim>\<open>XYZ.h\<close> and \<^verbatim>\<open>XYZW.h\<close> are not among the sources.
  \<open>XYZ\<close> is the spec's Vec3 and follows the sibling class \<^verbatim>\<open>UVW\<close>, which is; \<open>XYZW\<close> is the
  spec's Vec4w: arithmetic on all four coordinates, projection \<open>(x/w, y/w, z/w)\<close> when
  \<open>divide\<close> is set and the first three coordinates otherwise.\<close>

datatype XYZ = XYZ (GetX: real) (GetY: real) (GetZ: real)

datatype XYZW = XYZW (GetWX: real) (GetWY: real) (GetWZ: real) (GetW: real)

definition XYZ_zero :: XYZ where "XYZ_zero = XYZ 0 0 0"
definition XYZW_zero :: XYZW where "XYZW_zero = XYZW 0 0 0 0"

fun XYZ_add :: "XYZ \<Rightarrow> XYZ \<Rightarrow> XYZ" where
  "XYZ_add (XYZ a b c) (XYZ a' b' c') = XYZ (a + a') (b + b') (c + c')"
fun XYZ_sub :: "XYZ \<Rightarrow> XYZ \<Rightarrow> XYZ" where
  "XYZ_sub (XYZ a b c) (XYZ a' b' c') = XYZ (a - a') (b - b') (c - c')"
fun XYZ_scale :: "real \<Rightarrow> XYZ \<Rightarrow> XYZ" where
  "XYZ_scale d (XYZ a b c) = XYZ (a * d) (b * d) (c * d)"
fun XYZ_div :: "XYZ \<Rightarrow> real \<Rightarrow> XYZ" where
  "XYZ_div (XYZ a b c) d = XYZ (a / d) (b / d) (c / d)"
fun DotProduct :: "XYZ \<Rightarrow> XYZ \<Rightarrow> real" where
  "DotProduct (XYZ a b c) (XYZ a' b' c') = a * a' + b * b' + c * c'"
fun Length :: "XYZ \<Rightarrow> real" where
  "Length (XYZ a b c) = sqrt (a * a + b * b + c * c)"
definition Normalize :: "XYZ \<Rightarrow> XYZ" where
  "Normalize v = XYZ_div v (Length v)"

fun XYZW_add :: "XYZW \<Rightarrow> XYZW \<Rightarrow> XYZW" where
  "XYZW_add (XYZW a b c w) (XYZW a' b' c' w') = XYZW (a + a') (b + b') (c + c') (w + w')"
fun XYZW_sub :: "XYZW \<Rightarrow> XYZW \<Rightarrow> XYZW" where
  "XYZW_sub (XYZW a b c w) (XYZW a' b' c' w') = XYZW (a - a') (b - b') (c - c') (w - w')"
fun XYZW_scale :: "real \<Rightarrow> XYZW \<Rightarrow> XYZW" where
  "XYZW_scale d (XYZW a b c w) = XYZW (a * d) (b * d) (c * d) (w * d)"
fun XYZW_div :: "XYZW \<Rightarrow> real \<Rightarrow> XYZW" where
  "XYZW_div (XYZW a b c w) d = XYZW (a / d) (b / d) (c / d) (w / d)"
fun XYZW_Distance :: "XYZW \<Rightarrow> XYZW \<Rightarrow> real" where
  "XYZW_Distance (XYZW a b c w) (XYZW a' b' c' w') =
     sqrt ((a' - a)\<^sup>2 + (b' - b)\<^sup>2 + (c' - c)\<^sup>2 + (w' - w)\<^sup>2)"
fun ToXYZ :: "XYZW \<Rightarrow> bool \<Rightarrow> XYZ" where
  "ToXYZ (XYZW a b c w) dv = (if dv then XYZ (a / w) (b / w) (c / w) else XYZ a b c)"
text \<open>The constructor \<^verbatim>\<open>XYZW(XYZ, w)\<close>: the spec's glossary represents the weighted point
  \<open>(X, w)\<close> as \<open>(X \<cdot> w, w)\<close>.\<close>

fun XYZW_of :: "XYZ \<Rightarrow> real \<Rightarrow> XYZW" where
  "XYZW_of (XYZ a b c) w = XYZW (a * w) (b * w) (c * w) w"

type_synonym buffers = "real list \<times> XYZW list"

section \<open>Reverse\<close>

text \<open>\<^verbatim>\<open>ReverseKnotVector\<close> and \<^verbatim>\<open>ReverseControlPoints\<close> take their second argument by
  value: the functions below return the final content of that local copy, which is
  destroyed when the C++ function returns.\<close>

definition ReverseKnotVector :: "real list \<Rightarrow> real list \<Rightarrow> 'b error + real list" where
  "ReverseKnotVector knotVector reversedKnotVector =
     (let size = int (length knotVector) in
      bindE (vget knotVector 0) (\<lambda>min.
      bindE (vget knotVector (size - 1)) (\<lambda>max.
      bindE (vresize reversedKnotVector size 0) (\<lambda>r0.
      bindE (vset r0 0 min) (\<lambda>r1.
      forE [1..size - 1] (\<lambda>i r.
        bindE (vget r (i - 1)) (\<lambda>prev.
        bindE (vget knotVector (size - i)) (\<lambda>hi.
        bindE (vget knotVector (size - i - 1)) (\<lambda>lo.
        vset r i (prev + (hi - lo)))))) r1)))))"

definition ReverseControlPoints :: "XYZW list \<Rightarrow> XYZW list \<Rightarrow> 'b error + XYZW list" where
  "ReverseControlPoints controlPoints reversedControlPoints =
     (let size = int (length controlPoints) in
      bindE (vresize reversedControlPoints size XYZW_zero) (\<lambda>r0.
      bindE (forE [0..size - 1] (\<lambda>i r.
               bindE (vget controlPoints i) (\<lambda>c. vset r i c)) r0) (\<lambda>r1.
      Inr (rev r1))))"

definition Reverse :: "real list \<Rightarrow> XYZW list \<Rightarrow> buffers \<Rightarrow> 'b error + buffers" where
  "Reverse knotVector controlPoints out =
     (case out of (reversedKnotVector, reversedControlPoints) \<Rightarrow>
        bindE (ReverseKnotVector knotVector reversedKnotVector) (\<lambda>_.
        bindE (ReverseControlPoints controlPoints reversedControlPoints) (\<lambda>_.
        Inr (reversedKnotVector, reversedControlPoints))))"

section \<open>CreateTransform\<close>

text \<open>\<^verbatim>\<open>Matrix4d.h\<close> is missing; the matrix is represented by its action on a point,
  \<^verbatim>\<open>Matrix4d::OfPoint\<close>.\<close>

definition CreateTransform :: "XYZW list \<Rightarrow> (XYZ \<Rightarrow> XYZ) \<Rightarrow> XYZW list \<Rightarrow> 'b error + XYZW list" where
  "CreateTransform controlPoints OfPoint transformedControlPoints0 =
     (let size = int (length controlPoints) in
      bindE (vresize transformedControlPoints0 size XYZW_zero) (\<lambda>transformedControlPoints.
      forE [0..size - 1] (\<lambda>i tCP.
        bindE (vget controlPoints i) (\<lambda>temp.
        vset tCP i (XYZW_of (OfPoint (ToXYZ temp True)) (GetW temp)))) transformedControlPoints))"

section \<open>Collaborators of the engine\<close>

text \<open>Modelled from the spec: \<^verbatim>\<open>LNLibExceptions.h\<close> is missing. The spec (section 7) has a
  precondition failure end the operation at once; \<^verbatim>\<open>VALIDATE_ARGUMENT(cond, ...)\<close> throws
  unless \<open>cond\<close> holds, and \<^verbatim>\<open>VALIDATE_ARGUMENT_RANGE(t, lo, hi)\<close> unless \<open>lo \<le> t \<le> hi\<close>.
  \<open>bufs\<close> is the state of the caller's output buffers at the macro.\<close>

definition VALIDATE_ARGUMENT :: "bool \<Rightarrow> 'b \<Rightarrow> 'b error + 'a \<Rightarrow> 'b error + 'a" where
  "VALIDATE_ARGUMENT cond bufs rest = (if cond then rest else Inl (InvalidArgument bufs))"

definition VALIDATE_ARGUMENT_RANGE ::
  "real \<Rightarrow> 'b error + real \<Rightarrow> 'b error + real \<Rightarrow> 'b \<Rightarrow> 'b error + 'a \<Rightarrow> 'b error + 'a" where
  "VALIDATE_ARGUMENT_RANGE t lo hi bufs rest =
     bindE lo (\<lambda>l. bindE hi (\<lambda>h.
       if l \<le> t \<and> t \<le> h then rest else Inl (InvalidArgument bufs)))"

text \<open>An exception of a callee passes through the caller, whose buffers are then as
  they are at the call.\<close>

definition propagate :: "'b \<Rightarrow> unit error + 'a \<Rightarrow> 'b error + 'a" where
  "propagate bufs r =
     (case r of
        Inl (InvalidArgument _) \<Rightarrow> Inl (InvalidArgument bufs)
      | Inl LengthError \<Rightarrow> Inl LengthError
      | Inl IndexOutOfRange \<Rightarrow> Inl IndexOutOfRange
      | Inl SignedOverflow \<Rightarrow> Inl SignedOverflow
      | Inr a \<Rightarrow> Inr a)"

text \<open>Modelled from the spec: \<^verbatim>\<open>Constants.h\<close> and \<^verbatim>\<open>MathUtils.h\<close> are missing. Section 6
  gives the two tolerances, \<open>\<epsilon> \<approx> 1e-10\<close> for coordinates and \<open>\<epsilon>\<^sub>d \<approx> 1e-6\<close> for distances;
  the comparisons are the spec's scalar comparisons with tolerance.\<close>

definition DoubleEpsilon :: real where "DoubleEpsilon = 1 / 10 ^ 10"
definition DistanceEpsilon :: real where "DistanceEpsilon = 1 / 10 ^ 6"

definition IsAlmostEqualTo :: "real \<Rightarrow> real \<Rightarrow> bool" where
  "IsAlmostEqualTo value1 value2 = (\<bar>value1 - value2\<bar> < DoubleEpsilon)"

definition IsLessThanOrEqual :: "real \<Rightarrow> real \<Rightarrow> bool" where
  "IsLessThanOrEqual value1 value2 = (value1 < value2 \<or> IsAlmostEqualTo value1 value2)"

text \<open>Modelled from the spec: \<^verbatim>\<open>ValidationUtils.h\<close> is missing. Section 4.5:
  a knot vector is valid when it is nondecreasing, a curve when \<open>|U| = |P| + p + 1\<close>,
  and the tolerance of a modification is \<open>min\<^sub>i P[i].w \<cdot> \<epsilon>\<^sub>d / (1 + max\<^sub>i |P[i]|)\<close>,
  the length being that of the projected point.\<close>

definition IsValidKnotVector :: "real list \<Rightarrow> bool" where
  "IsValidKnotVector knotVector = sorted knotVector"

definition IsValidNurbs :: "int \<Rightarrow> nat \<Rightarrow> nat \<Rightarrow> bool" where
  "IsValidNurbs degree knotSize controlPointsSize =
     (int knotSize = int controlPointsSize + degree + 1)"

definition ComputeCurveModifyTolerance :: "XYZW list \<Rightarrow> real" where
  "ComputeCurveModifyTolerance controlPoints =
     Min (set (map GetW controlPoints)) * DistanceEpsilon
       / (1 + Max (set (map (\<lambda>c. Length (ToXYZ c True)) controlPoints)))"

text \<open>Modelled from the spec: \<^verbatim>\<open>Polynomials.h\<close> is missing. Section 4.1:
  \<open>FindSpan\<close> returns the span index \<open>k \<in> [p, n]\<close> with \<open>n = |U| - p - 2\<close>, returns \<open>n\<close> at
  \<open>U[n+1]\<close>, and is a binary search on \<open>U[p..n+1]\<close> for the index with
  \<open>U[k] \<le> t < U[k+1]\<close>; \<open>Multiplicity\<close> counts the knots equal to \<open>t\<close> up to the tolerance;
  \<open>BasisFunctions\<close> is the triangular Cox-de Boor recurrence for the \<open>p + 1\<close> functions
  that do not vanish on the span.\<close>

function spanSearch :: "real list \<Rightarrow> real \<Rightarrow> int \<Rightarrow> int \<Rightarrow> 'b error + int" where
  "spanSearch knotVector paramT low high =
     (if high - low \<le> 1 then Inr low
      else let mid = (low + high) div 2 in
        bindE (vget knotVector mid) (\<lambda>um.
          if paramT < um then spanSearch knotVector paramT low mid
          else spanSearch knotVector paramT mid high))"
  by pat_completeness auto
termination
  by (relation "measure (\<lambda>(knotVector, paramT, low, high). nat (high - low))") auto

declare spanSearch.simps [simp del]

definition GetKnotSpanIndex :: "int \<Rightarrow> real list \<Rightarrow> real \<Rightarrow> 'b error + int" where
  "GetKnotSpanIndex degree knotVector paramT =
     (let n = int (length knotVector) - degree - 2 in
      bindE (vget knotVector (n + 1)) (\<lambda>un1.
        if paramT = un1 then Inr n
        else spanSearch knotVector paramT degree (n + 1)))"

definition GetKnotMultiplicity :: "real list \<Rightarrow> real \<Rightarrow> int" where
  "GetKnotMultiplicity knotVector paramT =
     int (length (filter (\<lambda>u. IsAlmostEqualTo u paramT) knotVector))"

definition BasisFunctions :: "int \<Rightarrow> int \<Rightarrow> real list \<Rightarrow> real \<Rightarrow> 'b error + real list" where
  "BasisFunctions spanIndex degree knotVector paramT =
     forE [1..degree] (\<lambda>j N.
       bindE (forE [0..j - 1] (\<lambda>r (N, saved).
                bindE (vget knotVector (spanIndex + r + 1)) (\<lambda>ur.
                bindE (vget knotVector (spanIndex + 1 - (j - r))) (\<lambda>ul.
                bindE (vget N r) (\<lambda>nr.
                  let right = ur - paramT; left = paramT - ul;
                      temp = nr / (right + left)
                  in bindE (vset N r (saved + right * temp)) (\<lambda>N'.
                     Inr (N', left * temp)))))) (N, 0))
         (\<lambda>(N', saved). vset N' j saved))
       (1 # replicate (nat degree) 0)"

text \<open>Modelled from the spec: \<^verbatim>\<open>BsplineCurve.h\<close> is missing. Section 4.2: the point is
  \<open>\<Sum> N\<^sub>i\<^sub>,\<^sub>p(t) \<cdot> P[i]\<close> over the span that contains \<open>t\<close>, in four coordinates.\<close>

definition BsplineCurve_GetPointOnCurve ::
  "int \<Rightarrow> real list \<Rightarrow> real \<Rightarrow> XYZW list \<Rightarrow> 'b error + XYZW" where
  "BsplineCurve_GetPointOnCurve degree knotVector paramT controlPoints =
     bindE (GetKnotSpanIndex degree knotVector paramT) (\<lambda>spanIndex.
     bindE (BasisFunctions spanIndex degree knotVector paramT) (\<lambda>N.
     forE [0..degree] (\<lambda>i point.
       bindE (vget N i) (\<lambda>ni.
       bindE (vget controlPoints (spanIndex - degree + i)) (\<lambda>c.
       Inr (XYZW_add point (XYZW_scale ni c))))) XYZW_zero))"

section \<open>GetPointOnCurve\<close>

definition GetPointOnCurve :: "int \<Rightarrow> real list \<Rightarrow> real \<Rightarrow> XYZW list \<Rightarrow> unit error + XYZ" where
  "GetPointOnCurve degree knotVector paramT controlPoints =
     VALIDATE_ARGUMENT (degree > 0) () (
     VALIDATE_ARGUMENT (length knotVector > 0) () (
     VALIDATE_ARGUMENT (IsValidKnotVector knotVector) () (
     VALIDATE_ARGUMENT_RANGE paramT (vget knotVector 0)
        (vget knotVector (int (length knotVector) - 1)) () (
     VALIDATE_ARGUMENT (length controlPoints > 0) () (
     VALIDATE_ARGUMENT (IsValidNurbs degree (length knotVector) (length controlPoints)) () (
       bindE (BsplineCurve_GetPointOnCurve degree knotVector paramT controlPoints)
         (\<lambda>weightPoint. Inr (ToXYZ weightPoint True))))))))"

section \<open>InsertKnot\<close>

text \<open>The caller's buffers are \<open>(insertedKnotVector, updatedControlPoints)\<close>. The loop
  over \<open>j\<close> carries \<open>L\<close>, which the source declares outside it and reads after it.
  \<open>requested\<close> is the sum \<^verbatim>\<open>originMultiplicity + times\<close> of line 88, an addition of two
  \<^verbatim>\<open>int\<close>s of which the second is the caller's.\<close>

definition InsertKnot ::
  "int \<Rightarrow> real list \<Rightarrow> XYZW list \<Rightarrow> real \<Rightarrow> int \<Rightarrow> buffers \<Rightarrow> buffers error + buffers" where
  "InsertKnot degree knotVector controlPoints insertKnot times0 out =
     (case out of (insertedKnotVector0, updatedControlPoints0) \<Rightarrow>
     VALIDATE_ARGUMENT (degree > 0) out (
     VALIDATE_ARGUMENT (length knotVector > 0) out (
     VALIDATE_ARGUMENT (IsValidKnotVector knotVector) out (
     VALIDATE_ARGUMENT (length controlPoints > 0) out (
     VALIDATE_ARGUMENT (IsValidNurbs degree (length knotVector) (length controlPoints)) out (
     VALIDATE_ARGUMENT (times0 > 0) out (
       bindE (GetKnotSpanIndex degree knotVector insertKnot) (\<lambda>knotSpanIndex.
       let originMultiplicity = GetKnotMultiplicity knotVector insertKnot in
       bindE (int_add originMultiplicity times0) (\<lambda>requested.
       let times = (if requested > degree then degree - originMultiplicity else times0)
       in
       bindE (vresize insertedKnotVector0 (int (length knotVector) + times) 0) (\<lambda>iKV0.
       bindE (forE [0..knotSpanIndex] (\<lambda>i iKV.
                bindE (vget knotVector i) (\<lambda>u. vset iKV i u)) iKV0) (\<lambda>iKV1.
       bindE (forE [1..times] (\<lambda>i iKV.
                vset iKV (knotSpanIndex + i) insertKnot) iKV1) (\<lambda>iKV2.
       bindE (forE (upto_size (knotSpanIndex + 1) (length knotVector)) (\<lambda>i iKV.
                bindE (vget knotVector i) (\<lambda>u. vset iKV (i + times) u)) iKV2) (\<lambda>iKV3.
       bindE (vresize updatedControlPoints0 (int (length controlPoints) + times) XYZW_zero)
         (\<lambda>uCP0.
       bindE (forE [0..knotSpanIndex - degree] (\<lambda>i uCP.
                bindE (vget controlPoints i) (\<lambda>c. vset uCP i c)) uCP0) (\<lambda>uCP1.
       bindE (forE (upto_size (knotSpanIndex - originMultiplicity) (length controlPoints))
                (\<lambda>i uCP.
                   bindE (vget controlPoints i) (\<lambda>c. vset uCP (i + times) c)) uCP1) (\<lambda>uCP2.
       bindE (vresize [] (degree - originMultiplicity + 1) XYZW_zero) (\<lambda>temp0.
       bindE (forE [0..degree - originMultiplicity] (\<lambda>i temp.
                bindE (vget controlPoints (knotSpanIndex - degree + i)) (\<lambda>c.
                vset temp i c)) temp0) (\<lambda>temp1.
       bindE (forE [1..times] (\<lambda>j (L0, temp, uCP).
                let L = knotSpanIndex - degree + j in
                bindE (forE [0..degree - j - originMultiplicity] (\<lambda>i temp.
                         bindE (vget knotVector (L + i)) (\<lambda>uLi.
                         bindE (vget knotVector (i + knotSpanIndex + 1)) (\<lambda>uik.
                           let alpha = (insertKnot - uLi) / (uik - uLi) in
                           bindE (vget temp (i + 1)) (\<lambda>t1.
                           bindE (vget temp i) (\<lambda>t0.
                           vset temp i
                             (XYZW_add (XYZW_scale alpha t1) (XYZW_scale (1 - alpha) t0)))))))
                       temp) (\<lambda>temp'.
                bindE (vget temp' 0) (\<lambda>t0.
                bindE (vset uCP L t0) (\<lambda>uCP'.
                bindE (vget temp' (degree - j - originMultiplicity)) (\<lambda>td.
                bindE (vset uCP' (knotSpanIndex + times - j - originMultiplicity) td)
                  (\<lambda>uCP''. Inr (L, temp', uCP'')))))))
                (0, temp1, uCP2)) (\<lambda>(L, temp2, uCP3).
       bindE (forE [L + 1..knotSpanIndex - originMultiplicity - 1] (\<lambda>i uCP.
                bindE (vget temp2 (i - L)) (\<lambda>c. vset uCP i c)) uCP3) (\<lambda>uCP4.
       Inr (iKV3, uCP4)))))))))))))))))))))"

section \<open>RefineKnotVector\<close>

text \<open>The \<^verbatim>\<open>while\<close> inside the loop over \<open>j\<close>: it copies knots and control points
  while the knot at \<open>i\<close> is not below the value to insert, and stops at \<open>i = a\<close> at the
  latest. The state is \<open>(i, k, insertedKnotVector, updatedControlPoints)\<close>.\<close>

type_synonym refine_state = "int \<times> int \<times> real list \<times> XYZW list"

function refineCopy ::
  "int \<Rightarrow> real list \<Rightarrow> XYZW list \<Rightarrow> real list \<Rightarrow> int \<Rightarrow> int \<Rightarrow> refine_state \<Rightarrow>
   'b error + refine_state" where
  "refineCopy degree knotVector controlPoints insertKnotElements a j (i, k, iKV, uCP) =
     bindE (vget insertKnotElements j) (\<lambda>xj.
     bindE (vget knotVector i) (\<lambda>ui.
       if xj \<le> ui \<and> i > a then
         bindE (vget controlPoints (i - degree - 1)) (\<lambda>c.
         bindE (vset uCP (k - degree - 1) c) (\<lambda>uCP'.
         bindE (vset iKV k ui) (\<lambda>iKV'.
         refineCopy degree knotVector controlPoints insertKnotElements a j
           (i - 1, k - 1, iKV', uCP'))))
       else Inr (i, k, iKV, uCP)))"
  by pat_completeness auto
termination
  by (relation "measure (\<lambda>(degree, knotVector, controlPoints, insertKnotElements, a, j,
        i, k, iKV, uCP). nat (i - a))") auto

declare refineCopy.simps [simp del]

definition RefineKnotVector ::
  "int \<Rightarrow> real list \<Rightarrow> XYZW list \<Rightarrow> real list \<Rightarrow> buffers \<Rightarrow> buffers error + buffers" where
  "RefineKnotVector degree knotVector controlPoints insertKnotElements out =
     (case out of (insertedKnotVector0, updatedControlPoints0) \<Rightarrow>
     VALIDATE_ARGUMENT (degree > 0) out (
     VALIDATE_ARGUMENT (length knotVector > 0) out (
     VALIDATE_ARGUMENT (IsValidKnotVector knotVector) out (
     VALIDATE_ARGUMENT (length controlPoints > 0) out (
     VALIDATE_ARGUMENT (IsValidNurbs degree (length knotVector) (length controlPoints)) out (
     VALIDATE_ARGUMENT (length insertKnotElements > 0) out (
       let n = int (length controlPoints) - 1;
           m = n + degree + 1;
           r = int (length insertKnotElements) - 1
       in
       bindE (vget insertKnotElements 0) (\<lambda>x0.
       bindE (GetKnotSpanIndex degree knotVector x0) (\<lambda>a.
       bindE (vget insertKnotElements r) (\<lambda>xr.
       bindE (GetKnotSpanIndex degree knotVector xr) (\<lambda>b0.
       let b = b0 + 1 in
       bindE (vresize insertedKnotVector0 (m + r + 2) 0) (\<lambda>iKV0.
       bindE (forE [0..a] (\<lambda>j iKV.
                bindE (vget knotVector j) (\<lambda>u. vset iKV j u)) iKV0) (\<lambda>iKV1.
       bindE (forE [b + degree..m] (\<lambda>j iKV.
                bindE (vget knotVector j) (\<lambda>u. vset iKV (j + r + 1) u)) iKV1) (\<lambda>iKV2.
       bindE (vresize updatedControlPoints0 (n + r + 2) XYZW_zero) (\<lambda>uCP0.
       bindE (forE [0..a - degree] (\<lambda>j uCP.
                bindE (vget controlPoints j) (\<lambda>c. vset uCP j c)) uCP0) (\<lambda>uCP1.
       bindE (forE [b - 1..n] (\<lambda>j uCP.
                bindE (vget controlPoints j) (\<lambda>c. vset uCP (j + r + 1) c)) uCP1) (\<lambda>uCP2.
       bindE (forE (rev [0..r]) (\<lambda>j st.
                bindE (refineCopy degree knotVector controlPoints insertKnotElements a j st)
                  (\<lambda>(i, k, iKV, uCP).
                bindE (vget uCP (k - degree)) (\<lambda>c.
                bindE (vset uCP (k - degree - 1) c) (\<lambda>uCP'.
                bindE (forE [1..degree] (\<lambda>l uCP.
                         let ind = k - degree + l in
                         bindE (vget iKV (k + l)) (\<lambda>ukl.
                         bindE (vget insertKnotElements j) (\<lambda>xj.
                           let alpha = ukl - xj in
                           if IsAlmostEqualTo \<bar>alpha\<bar> 0 then
                             bindE (vget uCP ind) (\<lambda>c. vset uCP (ind - 1) c)
                           else
                             bindE (vget iKV (k + l)) (\<lambda>ukl'.
                             bindE (vget knotVector (i - degree + l)) (\<lambda>uil.
                               let alpha = alpha / (ukl' - uil) in
                               bindE (vget uCP (ind - 1)) (\<lambda>c1.
                               bindE (vget uCP ind) (\<lambda>c0.
                               vset uCP (ind - 1)
                                 (XYZW_add (XYZW_scale alpha c1)
                                    (XYZW_scale (1 - alpha) c0)))))))))
                       uCP') (\<lambda>uCP''.
                bindE (vget insertKnotElements j) (\<lambda>xj.
                bindE (vset iKV k xj) (\<lambda>iKV'.
                Inr (i, k - 1, iKV', uCP''))))))))
                (b + degree - 1, b + degree + r, iKV2, uCP2))
         (\<lambda>(i, k, iKV, uCP). Inr (iKV, uCP)))))))))))))))))))"

section \<open>RemoveKnot\<close>

text \<open>C++ division of two \<^verbatim>\<open>int\<close>s truncates towards zero.\<close>

definition cdiv :: "int \<Rightarrow> int \<Rightarrow> int" where
  "cdiv a b = sgn a * sgn b * (\<bar>a\<bar> div \<bar>b\<bar>)"

text \<open>The first \<^verbatim>\<open>while\<close> of an attempt rebuilds control points from both ends of the
  window into \<open>temp\<close>; the state is \<open>(i, j, ii, jj, temp)\<close>.\<close>

type_synonym rebuild_state = "int \<times> int \<times> int \<times> int \<times> XYZW list"

function removeRebuild ::
  "real list \<Rightarrow> XYZW list \<Rightarrow> real \<Rightarrow> int \<Rightarrow> int \<Rightarrow> rebuild_state \<Rightarrow> 'b error + rebuild_state" where
  "removeRebuild knotVector controlPoints removeKnot order t (i, j, ii, jj, temp) =
     (if j - i \<ge> t then
        bindE (vget knotVector i) (\<lambda>ui.
        bindE (vget knotVector (i + order + t)) (\<lambda>uiot.
        let alphai = (removeKnot - ui) / (uiot - ui) in
        bindE (vget knotVector (j - t)) (\<lambda>ujt.
        bindE (vget knotVector (j + order)) (\<lambda>ujo.
        let alphaj = (removeKnot - ujt) / (ujo - ujt) in
        bindE (vget controlPoints i) (\<lambda>ci.
        bindE (vget temp (ii - 1)) (\<lambda>tl.
        bindE (vset temp ii
                 (XYZW_div (XYZW_sub ci (XYZW_scale (1 - alphai) tl)) alphai)) (\<lambda>temp'.
        bindE (vget controlPoints j) (\<lambda>cj.
        bindE (vget temp' (jj + 1)) (\<lambda>tr.
        bindE (vset temp' jj
                 (XYZW_div (XYZW_sub cj (XYZW_scale alphaj tr)) (1 - alphaj))) (\<lambda>temp''.
        removeRebuild knotVector controlPoints removeKnot order t
          (i + 1, j - 1, ii + 1, jj - 1, temp'')))))))))))
      else Inr (i, j, ii, jj, temp))"
  by pat_completeness auto
termination
  by (relation "measure (\<lambda>(knotVector, controlPoints, removeKnot, order, t, i, j, ii, jj, temp).
        nat (j - i - t + 1))") auto

declare removeRebuild.simps [simp del]

text \<open>The tolerance test of an attempt: \<open>remflag\<close>, with \<open>temp\<close> as the rebuild left it.\<close>

definition removeTest ::
  "real list \<Rightarrow> XYZW list \<Rightarrow> real \<Rightarrow> int \<Rightarrow> real \<Rightarrow> int \<Rightarrow> int \<Rightarrow> int \<Rightarrow> XYZW list \<Rightarrow>
   'b error + bool \<times> XYZW list" where
  "removeTest knotVector controlPoints removeKnot order tol t first last' temp0 =
     (let off = first - 1 in
      bindE (vget controlPoints off) (\<lambda>coff.
      bindE (vset temp0 0 coff) (\<lambda>temp1.
      bindE (vget controlPoints (last' + 1)) (\<lambda>clast.
      bindE (vset temp1 (last' + 1 - off) clast) (\<lambda>temp2.
      bindE (removeRebuild knotVector controlPoints removeKnot order t
               (first, last', 1, last' - off, temp2)) (\<lambda>(i, j, ii, jj, temp).
        if j - i < t then
          bindE (vget temp (ii - 1)) (\<lambda>tl.
          bindE (vget temp (jj + 1)) (\<lambda>tr.
          Inr (IsLessThanOrEqual (XYZW_Distance tl tr) tol, temp)))
        else
          bindE (vget knotVector i) (\<lambda>ui.
          bindE (vget knotVector (i + order + t)) (\<lambda>uiot.
          let alphai = (removeKnot - ui) / (uiot - ui) in
          bindE (vget controlPoints i) (\<lambda>ci.
          bindE (vget temp (ii + t + 1)) (\<lambda>tr.
          bindE (vget temp (ii - 1)) (\<lambda>tl.
          Inr (IsLessThanOrEqual
                 (XYZW_Distance ci
                    (XYZW_add (XYZW_scale alphai tr) (XYZW_scale (1 * alphai) tl))) tol,
               temp))))))))))))"

text \<open>The second \<^verbatim>\<open>while\<close> of an attempt, run when \<open>remflag\<close> is set, stores the rebuilt
  points.\<close>

function removeCommit ::
  "int \<Rightarrow> int \<Rightarrow> XYZW list \<Rightarrow> int \<times> int \<times> XYZW list \<Rightarrow> 'b error + XYZW list" where
  "removeCommit t off temp (i, j, uCP) =
     (if j - i > t then
        bindE (vget temp (i - off)) (\<lambda>ti.
        bindE (vset uCP i ti) (\<lambda>uCP'.
        bindE (vget temp (j - off)) (\<lambda>tj.
        bindE (vset uCP' j tj) (\<lambda>uCP''.
        removeCommit t off temp (i + 1, j - 1, uCP'')))))
      else Inr uCP)"
  by pat_completeness auto
termination
  by (relation "measure (\<lambda>(t, off, temp, i, j, uCP). nat (j - i - t))") auto

declare removeCommit.simps [simp del]

text \<open>\<^verbatim>\<open>RemoveKnot\<close> returns \<^verbatim>\<open>void\<close>; the caller's buffers are
  \<open>(restKnotVector, updatedControlPoints)\<close>. The loop over \<open>t\<close> has no \<^verbatim>\<open>break\<close>, so \<open>t\<close>
  equals \<open>times\<close> after it.\<close>

definition RemoveKnot ::
  "int \<Rightarrow> real list \<Rightarrow> XYZW list \<Rightarrow> real \<Rightarrow> int \<Rightarrow> buffers \<Rightarrow> buffers error + buffers" where
  "RemoveKnot degree knotVector controlPoints removeKnot times' out =
     VALIDATE_ARGUMENT (degree > 0) out (
     VALIDATE_ARGUMENT (length knotVector > 0) out (
     VALIDATE_ARGUMENT (IsValidKnotVector knotVector) out (
     VALIDATE_ARGUMENT (length controlPoints > 0) out (
     VALIDATE_ARGUMENT (IsValidNurbs degree (length knotVector) (length controlPoints)) out (
     VALIDATE_ARGUMENT_RANGE removeKnot (vget knotVector 0)
        (vget knotVector (int (length knotVector) - 1)) out (
     VALIDATE_ARGUMENT (times' > 0) out (
       let tol = ComputeCurveModifyTolerance controlPoints;
           n = int (length controlPoints) - 1;
           order = degree + 1;
           s = GetKnotMultiplicity knotVector removeKnot
       in
       bindE (GetKnotSpanIndex degree knotVector removeKnot) (\<lambda>r.
       let first0 = r - degree;
           last0 = r - s;
           restKnotVector0 = knotVector;
           m = n + degree + 1
       in
       bindE (forE [r + 1..m] (\<lambda>k rest.
                bindE (vget rest k) (\<lambda>u. vset rest (k - times') u)) restKnotVector0) (\<lambda>rest1.
       bindE (forE [0..times' - 1] (\<lambda>i rest. vpop_back rest) rest1) (\<lambda>restKnotVector.
       let updatedControlPoints0 = controlPoints in
       bindE (vresize [] (2 * degree + 1) XYZW_zero) (\<lambda>temp0.
       bindE (forE [0..times' - 1] (\<lambda>t (first, last', temp, uCP).
                let off = first - 1 in
                bindE (removeTest knotVector controlPoints removeKnot order tol t first last'
                         temp) (\<lambda>(remflag, temp').
                bindE (if remflag then removeCommit t off temp' (first, last', uCP)
                       else Inr uCP) (\<lambda>uCP'.
                Inr (first - 1, last' + 1, temp', uCP'))))
                (first0, last0, temp0, updatedControlPoints0)) (\<lambda>(first, last', temp, uCP1).
       let t = times' in
       if t = 0 then Inr (restKnotVector, uCP1)
       else
         let j0 = cdiv (2 * r - s - degree) 2;
             i0 = j0
         in
         bindE (forE [1..t - 1] (\<lambda>k (i, j).
                  if k mod 2 = 1 then Inr (i + 1, j) else Inr (i, j - 1)) (i0, j0)) (\<lambda>(i, j1).
         bindE (forE [i + 1..n] (\<lambda>k (j, uCP).
                  bindE (vget controlPoints k) (\<lambda>c.
                  bindE (vset uCP j c) (\<lambda>uCP'. Inr (j + 1, uCP')))) (j1, uCP1)) (\<lambda>(j2, uCP2).
         bindE (forE [0..t - 1] (\<lambda>i uCP. vpop_back uCP) uCP2) (\<lambda>updatedControlPoints.
         Inr (restKnotVector, updatedControlPoints))))))))))))))))"

section \<open>EquallyTessellate\<close>

text \<open>The two output vectors are appended to (\<^verbatim>\<open>emplace_back\<close>); \<^verbatim>\<open>std::unique\<close>
  followed by \<^verbatim>\<open>erase\<close> drops every knot equal to its predecessor.\<close>

type_synonym tess_buffers = "XYZ list \<times> real list"

definition EquallyTessellate ::
  "int \<Rightarrow> real list \<Rightarrow> XYZW list \<Rightarrow> tess_buffers \<Rightarrow> tess_buffers error + tess_buffers" where
  "EquallyTessellate degree knotVector controlPoints out =
     VALIDATE_ARGUMENT (degree > 0) out (
     VALIDATE_ARGUMENT (length knotVector > 0) out (
     VALIDATE_ARGUMENT (IsValidKnotVector knotVector) out (
     VALIDATE_ARGUMENT (length controlPoints > 0) out (
     VALIDATE_ARGUMENT (IsValidNurbs degree (length knotVector) (length controlPoints)) out (
       let uniqueKv = remdups_adj knotVector;
           size = int (length uniqueKv);
           intervals = 100
       in
       bindE (forE [0..size - 1 - 1] (\<lambda>i bufs.
                bindE (vget uniqueKv i) (\<lambda>currentU.
                bindE (vget uniqueKv (i - 1)) (\<lambda>nextU.
                  let step = (nextU - currentU) / real_of_int intervals in
                  forE [0..intervals - 1] (\<lambda>j (tessellatedPoints, correspondingKnots).
                    let correspondingKnots' = correspondingKnots @ [currentU + step * real_of_int i] in
                    bindE (vget correspondingKnots' i) (\<lambda>u.
                    bindE (propagate (tessellatedPoints, correspondingKnots')
                             (GetPointOnCurve degree knotVector u controlPoints)) (\<lambda>pt.
                    Inr (tessellatedPoints @ [pt], correspondingKnots')))) bufs))) out)
         (\<lambda>(tessellatedPoints, correspondingKnots).
            bindE (vget knotVector (int (length knotVector) - 1)) (\<lambda>lastKnot.
            bindE (vget controlPoints (int (length controlPoints) - 1)) (\<lambda>lastPoint.
            Inr (tessellatedPoints @ [ToXYZ lastPoint True],
                 correspondingKnots @ [lastKnot])))))))))"

section \<open>GlobalInterpolation\<close>

text \<open>\<^verbatim>\<open>Interpolation.h\<close> is missing; its four functions are parameters of the model:
  the chord-length parameters, the averaged knot vector, the matrix of basis values and
  the solution of the linear system.\<close>

definition GlobalInterpolation ::
  "(XYZ list \<Rightarrow> real list) \<Rightarrow> (int \<Rightarrow> int \<Rightarrow> real list \<Rightarrow> real list) \<Rightarrow>
   (int \<Rightarrow> int \<Rightarrow> real list \<Rightarrow> real list \<Rightarrow> real list list) \<Rightarrow>
   (real list list \<Rightarrow> XYZ list \<Rightarrow> XYZ list) \<Rightarrow>
   int \<Rightarrow> XYZ list \<Rightarrow> buffers \<Rightarrow> 'b error + buffers" where
  "GlobalInterpolation GetChordParameterization ComputeKnotVector MakeInterpolationMatrix
       ComputerControlPointsByLUDecomposition degree throughPoints out =
     (case out of (knotVector0, controlPoints0) \<Rightarrow>
       let size = int (length throughPoints);
           n = size - 1;
           uk = GetChordParameterization throughPoints;
           knotVector = ComputeKnotVector degree (int (length throughPoints)) uk;
           A = MakeInterpolationMatrix degree size uk knotVector;
           tempControlPoints = ComputerControlPointsByLUDecomposition A throughPoints
       in
       bindE (forE [0..size - 1] (\<lambda>i controlPoints.
                bindE (vget tempControlPoints i) (\<lambda>c.
                vset controlPoints i (XYZW_of c 1))) controlPoints0)
         (\<lambda>controlPoints. Inr (knotVector, controlPoints)))"

section \<open>ComputeRationalCurveDerivatives and GetParamOnCurve\<close>

text \<open>\<^verbatim>\<open>BsplineCurve::ComputeDerivatives\<close> is missing and is the parameter
  \<open>ComputeDerivatives\<close>; \<^verbatim>\<open>MathUtils::Binomial\<close> is the binomial coefficient of the spec's
  numeric primitives.\<close>

definition Binomial :: "int \<Rightarrow> int \<Rightarrow> real" where
  "Binomial n k = real (nat n choose nat k)"

definition ComputeRationalCurveDerivatives ::
  "(int \<Rightarrow> int \<Rightarrow> real list \<Rightarrow> real \<Rightarrow> XYZW list \<Rightarrow> unit error + XYZW list) \<Rightarrow>
   int \<Rightarrow> int \<Rightarrow> real list \<Rightarrow> real \<Rightarrow> XYZW list \<Rightarrow> unit error + XYZ list" where
  "ComputeRationalCurveDerivatives ComputeDerivatives degree derivative knotVector paramT
       controlPoints =
     VALIDATE_ARGUMENT (degree > 0) () (
     VALIDATE_ARGUMENT (derivative > 0) () (
     VALIDATE_ARGUMENT (length knotVector > 0) () (
     VALIDATE_ARGUMENT (IsValidKnotVector knotVector) () (
     VALIDATE_ARGUMENT_RANGE paramT (vget knotVector 0)
        (vget knotVector (int (length knotVector) - 1)) () (
     VALIDATE_ARGUMENT (length controlPoints > 0) () (
     VALIDATE_ARGUMENT (IsValidNurbs degree (length knotVector) (length controlPoints)) () (
       bindE (vresize [] (derivative + 1) XYZ_zero) (\<lambda>derivatives0.
       bindE (ComputeDerivatives degree derivative knotVector paramT controlPoints) (\<lambda>ders.
       bindE (vresize [] (derivative + 1) XYZ_zero) (\<lambda>Aders0.
       bindE (forE (upto_size 0 (length ders)) (\<lambda>i Aders.
                bindE (vget ders i) (\<lambda>d. vset Aders i (ToXYZ d False))) Aders0) (\<lambda>Aders.
       bindE (vresize [] (derivative + 1) 0) (\<lambda>wders0.
       bindE (forE (upto_size 0 (length ders)) (\<lambda>i wders.
                bindE (vget ders i) (\<lambda>d. vset wders i (GetW d))) wders0) (\<lambda>wders.
       forE [0..derivative] (\<lambda>k derivatives.
         bindE (vget Aders k) (\<lambda>v0.
         bindE (forE [1..k] (\<lambda>i v.
                  bindE (vget wders i) (\<lambda>wi.
                  bindE (vget derivatives (k - i)) (\<lambda>dki.
                  Inr (XYZ_sub v (XYZ_scale (Binomial k i * wi) dki))))) v0) (\<lambda>v.
         bindE (vget wders 0) (\<lambda>w0.
         vset derivatives k (XYZ_div v w0))))) derivatives0)))))))))))))"

text \<open>Lines 931 to 952 of the source: what the Newton iteration does with a candidate
  parameter that has left \<open>[a, b]\<close>.\<close>

definition NewtonStepIntoDomain :: "bool \<Rightarrow> real \<Rightarrow> real \<Rightarrow> real \<Rightarrow> real" where
  "NewtonStepIntoDomain isClosed a b temp =
     (if isClosed then
        (let temp1 = (if temp < a then a else temp) in
         if temp1 > b then b else temp1)
      else
        (let temp1 = (if temp < a then b - (a - temp) else temp) in
         if temp1 > b then a + (temp1 - b) else temp1))"

text \<open>The \<^verbatim>\<open>while (counters < maxIterations)\<close> loop. The result is the parameter that
  the function returns, with the number of iterations completed before the return.\<close>

function NewtonLoop ::
  "(int \<Rightarrow> int \<Rightarrow> real list \<Rightarrow> real \<Rightarrow> XYZW list \<Rightarrow> unit error + XYZW list) \<Rightarrow>
   int \<Rightarrow> real list \<Rightarrow> XYZW list \<Rightarrow> XYZ \<Rightarrow> bool \<Rightarrow> real \<Rightarrow> real \<Rightarrow> int \<Rightarrow>
   int \<Rightarrow> real \<Rightarrow> unit error + real \<times> int" where
  "NewtonLoop ComputeDerivatives degree knotVector controlPoints givenPoint isClosed a b
       maxIterations counters paramT =
     (if counters < maxIterations then
        bindE (ComputeRationalCurveDerivatives ComputeDerivatives degree 2 knotVector paramT
                 controlPoints) (\<lambda>derivatives.
        bindE (vget derivatives 0) (\<lambda>d0.
        bindE (vget derivatives 1) (\<lambda>d1.
        bindE (vget derivatives 2) (\<lambda>d2.
          let difference = XYZ_sub d0 givenPoint;
              f = DotProduct d1 difference;
              condition1 = Length difference;
              condition2 = \<bar>f / (Length d1 * condition1)\<bar>
          in
          if condition1 < DistanceEpsilon \<and> condition2 < DistanceEpsilon
          then Inr (paramT, counters)
          else
            let df = DotProduct d2 difference + DotProduct d1 d1;
                temp = NewtonStepIntoDomain isClosed a b (paramT - f / df);
                condition4 = Length (XYZ_scale (temp - paramT) d1)
            in
            if condition4 < DistanceEpsilon then Inr (paramT, counters)
            else NewtonLoop ComputeDerivatives degree knotVector controlPoints givenPoint
                   isClosed a b maxIterations (counters + 1) temp))))
      else Inr (paramT, counters))"
  by pat_completeness auto
termination
  by (relation "measure (\<lambda>(ComputeDerivatives, degree, knotVector, controlPoints, givenPoint,
        isClosed, a, b, maxIterations, counters, paramT). nat (maxIterations - counters))") auto

declare NewtonLoop.simps [simp del]

text \<open>\<^verbatim>\<open>ValidationUtils::IsClosed\<close> and \<^verbatim>\<open>Constants::MaxDistance\<close> are missing and the spec
  does not define them: they are the parameters \<open>IsClosed\<close> and \<open>MaxDistance\<close>.\<close>

definition GetParamOnCurve ::
  "(int \<Rightarrow> int \<Rightarrow> real list \<Rightarrow> real \<Rightarrow> XYZW list \<Rightarrow> unit error + XYZW list) \<Rightarrow>
   (XYZW list \<Rightarrow> bool) \<Rightarrow> real \<Rightarrow>
   int \<Rightarrow> real list \<Rightarrow> XYZW list \<Rightarrow> XYZ \<Rightarrow> unit error + real" where
  "GetParamOnCurve ComputeDerivatives IsClosed MaxDistance degree knotVector controlPoints
       givenPoint =
     VALIDATE_ARGUMENT (degree > 0) () (
     VALIDATE_ARGUMENT (length knotVector > 0) () (
     VALIDATE_ARGUMENT (IsValidKnotVector knotVector) () (
     VALIDATE_ARGUMENT (length controlPoints > 0) () (
     VALIDATE_ARGUMENT (IsValidNurbs degree (length knotVector) (length controlPoints)) () (
       let maxIterations = 10 in
       bindE (vget knotVector 0) (\<lambda>minParam.
       bindE (vget knotVector (int (length knotVector) - 1)) (\<lambda>maxParam.
         let samples = int (length controlPoints) * degree;
             span = (maxParam - minParam) / real_of_int (samples - 1)
         in
         bindE (forE [0..samples - 1 - 1] (\<lambda>i (minValue, paramT).
                  let currentU = minParam + span * real_of_int i in
                  bindE (GetPointOnCurve degree knotVector currentU controlPoints) (\<lambda>currentPoint.
                  let nextU = minParam + span * real_of_int (i + 1) in
                  bindE (GetPointOnCurve degree knotVector nextU controlPoints) (\<lambda>nextPoint.
                    let vector1 = XYZ_sub currentPoint givenPoint;
                        vector2 = XYZ_sub nextPoint currentPoint;
                        dot = DotProduct vector1 vector2;
                        (projectPoint, projectU) =
                          (if dot < 0 then (currentPoint, currentU)
                           else if dot > 1 then (nextPoint, nextU)
                           else (XYZ_add currentPoint (XYZ_scale dot (Normalize vector1)),
                                 currentU + (nextU - currentU) * dot));
                        distance = Length (XYZ_sub givenPoint projectPoint)
                    in
                    if distance < minValue then Inr (distance, projectU)
                    else Inr (minValue, paramT))))
                  (MaxDistance, DoubleEpsilon)) (\<lambda>(minValue, paramT).
           let isClosed = IsClosed controlPoints;
               a = minParam;
               b = maxParam
           in
           bindE (NewtonLoop ComputeDerivatives degree knotVector controlPoints givenPoint
                    isClosed a b maxIterations 0 paramT) (\<lambda>(t, counters). Inr t)))))))))"

text \<open>The straight segment from \<open>(0,0,0)\<close> to \<open>(1,0,0)\<close> has degree 1, knots \<open>0, 0, 1, 1\<close>
  and the control points \<open>(0,0,0,1)\<close>, \<open>(1,0,0,1)\<close>. Its B-spline is \<open>C(t) = (t, 0, 0, 1)\<close>,
  so \<^verbatim>\<open>BsplineCurve::ComputeDerivatives\<close> returns \<open>C(t)\<close>, \<open>C'(t) = (1, 0, 0, 0)\<close> and
  \<open>C''(t) = 0\<close> for it.\<close>

definition segmentDerivatives ::
  "int \<Rightarrow> int \<Rightarrow> real list \<Rightarrow> real \<Rightarrow> XYZW list \<Rightarrow> unit error + XYZW list" where
  "segmentDerivatives degree derivative knotVector paramT controlPoints =
     Inr [XYZW paramT 0 0 1, XYZW 1 0 0 0, XYZW 0 0 0 0]"

section \<open>DecomposeToBeziers\<close>

text \<open>The inner \<^verbatim>\<open>while\<close> of the source moves \<open>b\<close> to the last knot of a run of equal
  knots; it stops at \<open>m\<close> at the latest.\<close>

function skipEqualKnots :: "real list \<Rightarrow> int \<Rightarrow> int \<Rightarrow> 'b error + int" where
  "skipEqualKnots knotVector m b =
     (if b < m then
        bindE (vget knotVector (b + 1)) (\<lambda>u1.
        bindE (vget knotVector b) (\<lambda>u0.
          if IsAlmostEqualTo u1 u0 then skipEqualKnots knotVector m (b + 1) else Inr b))
      else Inr b)"
  by pat_completeness auto
termination
  by (relation "measure (\<lambda>(knotVector, m, b). nat (m - b))") auto

declare skipEqualKnots.simps [simp del]

text \<open>\<^verbatim>\<open>v[i][j]\<close> as a read and \<^verbatim>\<open>v[i][j] = x\<close> as a write.\<close>

definition vget2 :: "'a list list \<Rightarrow> int \<Rightarrow> int \<Rightarrow> 'b error + 'a" where
  "vget2 xss i j = bindE (vget xss i) (\<lambda>row. vget row j)"

definition vset2 :: "'a list list \<Rightarrow> int \<Rightarrow> int \<Rightarrow> 'a \<Rightarrow> 'b error + 'a list list" where
  "vset2 xss i j v = bindE (vget xss i) (\<lambda>row. bindE (vset row j v) (\<lambda>row'. vset xss i row'))"

text \<open>The loop state is \<open>(a, b, nb, decomposedControlPoints)\<close>; one pass of the outer
  \<^verbatim>\<open>while (b < m)\<close> is \<open>DecomposeStep\<close>.\<close>

type_synonym decompose_state = "int \<times> int \<times> int \<times> XYZW list list"

definition DecomposeStep ::
  "int \<Rightarrow> real list \<Rightarrow> XYZW list \<Rightarrow> int \<Rightarrow> decompose_state \<Rightarrow> 'b error + decompose_state" where
  "DecomposeStep degree knotVector controlPoints m st =
     (case st of (a, b0, nb, dcp) \<Rightarrow>
        let i = b0 in
        bindE (skipEqualKnots knotVector m b0) (\<lambda>b.
          let multi = b - i + 1 in
          if multi < degree then
            bindE (vget knotVector b) (\<lambda>ub.
            bindE (vget knotVector a) (\<lambda>ua.
              let numerator = ub - ua in
              bindE (vresize [] (degree + 1) 0) (\<lambda>alphaVector0.
              bindE (forE (rev [multi + 1..degree]) (\<lambda>j alphaVector.
                       bindE (vget knotVector (a + j)) (\<lambda>uaj.
                       bindE (vget knotVector a) (\<lambda>ua'.
                       vset alphaVector (j - multi - 1) (numerator / (uaj - ua')))))
                     alphaVector0) (\<lambda>alphaVector.
                let r = degree - multi in
                bindE (forE [1..r] (\<lambda>j dcp.
                         let save = r - j; s = multi + j in
                         bindE (forE (rev [s..degree]) (\<lambda>k dcp.
                                  bindE (vget alphaVector (k - s)) (\<lambda>alpha.
                                  bindE (vget2 dcp nb k) (\<lambda>pk.
                                  bindE (vget2 dcp nb (k - 1)) (\<lambda>pk1.
                                  vset2 dcp nb k
                                    (XYZW_add (XYZW_scale alpha pk)
                                       (XYZW_scale (1 - alpha) pk1)))))) dcp) (\<lambda>dcp.
                         if b < m then
                           bindE (vget2 dcp nb degree) (\<lambda>pd. vset2 dcp (nb + 1) save pd)
                         else Inr dcp)) dcp) (\<lambda>dcp.
                  let nb = nb + 1 in
                  if b < m then
                    bindE (forE [degree - multi..degree] (\<lambda>i dcp.
                             bindE (vget controlPoints (b - degree + i)) (\<lambda>c.
                             vset2 dcp nb i c)) dcp) (\<lambda>dcp.
                    Inr (b, b + 1, nb, dcp))
                  else Inr (a, b, nb, dcp))))))
          else Inr (a, b, nb, dcp)))"

partial_function (option) DecomposeLoop ::
  "int \<Rightarrow> real list \<Rightarrow> XYZW list \<Rightarrow> int \<Rightarrow> decompose_state \<Rightarrow>
   (unit error + XYZW list list) option" where
  "DecomposeLoop degree knotVector controlPoints m st =
     (case st of (a, b, nb, dcp) \<Rightarrow>
        if b < m then
          (case DecomposeStep degree knotVector controlPoints m st of
             Inl e \<Rightarrow> Some (Inl e)
           | Inr st' \<Rightarrow> DecomposeLoop degree knotVector controlPoints m st')
        else Some (Inr dcp))"

text \<open>The result is \<open>None\<close> when the call does not return.\<close>

definition DecomposeToBeziers ::
  "int \<Rightarrow> real list \<Rightarrow> XYZW list \<Rightarrow> (unit error + XYZW list list) option" where
  "DecomposeToBeziers degree knotVector controlPoints =
     (if \<not> degree > 0 then Some (Inl (InvalidArgument ()))
      else if \<not> length knotVector > 0 then Some (Inl (InvalidArgument ()))
      else if \<not> IsValidKnotVector knotVector then Some (Inl (InvalidArgument ()))
      else if \<not> length controlPoints > 0 then Some (Inl (InvalidArgument ()))
      else if \<not> IsValidNurbs degree (length knotVector) (length controlPoints)
        then Some (Inl (InvalidArgument ()))
      else
        let n = int (length controlPoints) - 1;
            m = n + degree + 1;
            a = degree;
            b = degree + 1;
            nb = 0
        in
        case bindE (vresize [] (degree + 1) XYZW_zero) (\<lambda>row.
             bindE (vresize [] (int (length controlPoints) - degree) row) (\<lambda>dcp0.
             forE [0..degree] (\<lambda>i dcp.
               bindE (vget controlPoints i) (\<lambda>c. vset2 dcp nb i c)) dcp0)) of
          Inl e \<Rightarrow> Some (Inl e)
        | Inr dcp \<Rightarrow> DecomposeLoop degree knotVector controlPoints m (a, b, nb, dcp))"

section \<open>CreateArc\<close>

text \<open>Modelled from the spec: \<^verbatim>\<open>Intersection.h\<close> is missing. Section 6 gives the four
  intersection types of two rays; \<^verbatim>\<open>Intersection::ComputeRays\<close> itself is the parameter
  \<open>ComputeRays\<close>, which returns the type with the values of its three output
  parameters.\<close>

datatype CurveCurveIntersectionType = Intersecting | Parallel | Coincident | Skew

type_synonym rays =
  "XYZ \<Rightarrow> XYZ \<Rightarrow> XYZ \<Rightarrow> XYZ \<Rightarrow> CurveCurveIntersectionType \<times> real \<times> real \<times> XYZ"

text \<open>The output parameters of \<^verbatim>\<open>CreateArc\<close> are \<open>degree\<close>, \<open>knotVector\<close> and
  \<open>controlPoints\<close>; the result pairs the returned \<^verbatim>\<open>bool\<close> with their final state.\<close>

type_synonym arc_out = "int \<times> real list \<times> XYZW list"

text \<open>The \<^verbatim>\<open>for (int i = 1; i < narcs; i++)\<close> loop, over the state
  \<open>(angle, index, P0, T0, controlPoints)\<close>. \<open>False\<close> is the \<^verbatim>\<open>return false\<close> in its body.\<close>

type_synonym arc_state = "real \<times> int \<times> XYZ \<times> XYZ \<times> XYZW list"

fun arcLoop ::
  "rays \<Rightarrow> XYZ \<Rightarrow> XYZ \<Rightarrow> XYZ \<Rightarrow> real \<Rightarrow> real \<Rightarrow> real \<Rightarrow> real \<Rightarrow> int \<Rightarrow>
   int list \<Rightarrow> arc_state \<Rightarrow> 'b error + bool \<times> arc_state" where
  "arcLoop ComputeRays center nX nY xRadius yRadius dtheta w1 narcs [] st = Inr (True, st)"
| "arcLoop ComputeRays center nX nY xRadius yRadius dtheta w1 narcs (i # is) st =
     (case st of (angle0, index, P0, T0, controlPoints0) \<Rightarrow>
        let angle = angle0 + dtheta;
            P2 = XYZ_add (XYZ_add center (XYZ_scale (xRadius * cos angle) nX))
                   (XYZ_scale (yRadius * sin angle) nY)
        in
        bindE (vset controlPoints0 (index + 2) (XYZW_of P2 1)) (\<lambda>controlPoints1.
          let T2 = XYZ_add (XYZ_scale (- sin angle) nX) (XYZ_scale (cos angle) nY) in
          case ComputeRays P0 T0 P2 T2 of (type, param0, param2, P1) \<Rightarrow>
            if type \<noteq> Intersecting then Inr (False, angle, index, P0, T0, controlPoints1)
            else
              bindE (vset controlPoints1 (index + 1) (XYZW_of P1 w1)) (\<lambda>controlPoints2.
                let index' = index + 2;
                    (P0', T0') = (if i < narcs then (P2, T2) else (P0, T0))
                in arcLoop ComputeRays center nX nY xRadius yRadius dtheta w1 narcs is
                     (angle, index', P0', T0', controlPoints2))))"

definition CreateArc ::
  "rays \<Rightarrow> XYZ \<Rightarrow> XYZ \<Rightarrow> XYZ \<Rightarrow> real \<Rightarrow> real \<Rightarrow> real \<Rightarrow> real \<Rightarrow> arc_out \<Rightarrow>
   'b error + bool \<times> arc_out" where
  "CreateArc ComputeRays center xAxis yAxis startRad endRad0 xRadius yRadius out =
     (case out of (degree0, knotVector0, controlPoints0) \<Rightarrow>
        let nX = Normalize xAxis;
            nY = Normalize yAxis;
            endRad = (if endRad0 < startRad then 2 * pi + startRad else endRad0);
            theta = endRad - startRad;
            narcs = (if IsLessThanOrEqual theta (pi / 2) then 1
                     else if IsLessThanOrEqual theta pi then 2
                     else if IsLessThanOrEqual theta (3 * pi / 2) then 3
                     else 4);
            dtheta = theta / real_of_int narcs;
            n = 2 * narcs
        in
        bindE (vresize knotVector0 (n + 3) 0) (\<lambda>knotVector1.
        bindE (vresize controlPoints0 n XYZW_zero) (\<lambda>controlPoints1.
          let w1 = cos (dtheta / 2);
              P0 = XYZ_add (XYZ_add center (XYZ_scale (xRadius * cos startRad) nX))
                     (XYZ_scale (yRadius * sin startRad) nY);
              T0 = XYZ_add (XYZ_scale (- sin startRad) nX) (XYZ_scale (cos startRad) nY)
          in
          bindE (vset controlPoints1 0 (XYZW_of P0 1)) (\<lambda>controlPoints2.
          bindE (arcLoop ComputeRays center nX nY xRadius yRadius dtheta w1 narcs
                   [1..narcs - 1] (startRad, 0, P0, T0, controlPoints2))
            (\<lambda>(completed, angle, index, P0', T0', controlPoints3).
              if \<not> completed then Inr (False, degree0, knotVector1, controlPoints3)
              else
                let j = 2 * narcs + 1 in
                bindE (forE [0..2] (\<lambda>i knotVector.
                         bindE (vset knotVector i 0) (\<lambda>knotVector'.
                         vset knotVector' (i + j) 1)) knotVector1) (\<lambda>knotVector2.
                bindE (if narcs = 2 then
                         bindE (vset knotVector2 4 (1 / 2)) (\<lambda>kv. vset kv 3 (1 / 2))
                       else if narcs = 3 then
                         bindE (vset knotVector2 4 (real_of_int (1 div 3))) (\<lambda>kv.
                         bindE (vset kv 3 (real_of_int (1 div 3))) (\<lambda>kv.
                         bindE (vset kv 6 (real_of_int (2 div 3))) (\<lambda>kv.
                         vset kv 5 (real_of_int (2 div 3)))))
                       else if narcs = 4 then
                         bindE (vset knotVector2 4 (1 / 4)) (\<lambda>kv.
                         bindE (vset kv 3 (1 / 4)) (\<lambda>kv.
                         bindE (vset kv 6 (1 / 2)) (\<lambda>kv.
                         bindE (vset kv 5 (1 / 2)) (\<lambda>kv.
                         bindE (vset kv 8 (3 / 4)) (\<lambda>kv.
                         vset kv 7 (3 / 4))))))
                       else Inr knotVector2) (\<lambda>knotVector3.
                Inr (True, 2, knotVector3, controlPoints3))))))))"

section \<open>Notions for the analysis of knot insertion\<close>

text \<open>
  Nothing below is code of the library: these are the mathematical objects against which
  \<^verbatim>\<open>InsertKnot\<close> and \<^verbatim>\<open>GetPointOnCurve\<close> are measured. Knots and control points are read as
  functions of an integer index, so that an insertion is a shift of indices and no
  statement has to carry the bounds of a vector.
\<close>

text \<open>Control points form a real vector space under the operations of \<^verbatim>\<open>XYZW\<close>.\<close>

instantiation XYZW :: real_vector
begin
definition zero_XYZW :: XYZW where "zero_XYZW = XYZW_zero"
definition plus_XYZW :: "XYZW \<Rightarrow> XYZW \<Rightarrow> XYZW" where "plus_XYZW = XYZW_add"
definition minus_XYZW :: "XYZW \<Rightarrow> XYZW \<Rightarrow> XYZW" where "minus_XYZW = XYZW_sub"
definition uminus_XYZW :: "XYZW \<Rightarrow> XYZW" where "uminus_XYZW = XYZW_scale (- 1)"
definition scaleR_XYZW :: "real \<Rightarrow> XYZW \<Rightarrow> XYZW" where "scaleR_XYZW = XYZW_scale"
instance
proof
  fix a b c :: XYZW and r s :: real
  show "a + b + c = a + (b + c)"
    by (cases a; cases b; cases c) (simp add: plus_XYZW_def)
  show "a + b = b + a"
    by (cases a; cases b) (simp add: plus_XYZW_def)
  show "0 + a = a"
    by (cases a) (simp add: plus_XYZW_def zero_XYZW_def XYZW_zero_def)
  show "- a + a = 0"
    by (cases a) (simp add: plus_XYZW_def zero_XYZW_def XYZW_zero_def uminus_XYZW_def)
  show "a - b = a + - b"
    by (cases a; cases b) (simp add: plus_XYZW_def minus_XYZW_def uminus_XYZW_def)
  show "r *\<^sub>R (a + b) = r *\<^sub>R a + r *\<^sub>R b"
    by (cases a; cases b) (simp add: plus_XYZW_def scaleR_XYZW_def algebra_simps)
  show "(r + s) *\<^sub>R a = r *\<^sub>R a + s *\<^sub>R a"
    by (cases a) (simp add: plus_XYZW_def scaleR_XYZW_def algebra_simps)
  show "r *\<^sub>R s *\<^sub>R a = (r * s) *\<^sub>R a"
    by (cases a) (simp add: scaleR_XYZW_def algebra_simps)
  show "1 *\<^sub>R a = a"
    by (cases a) (simp add: scaleR_XYZW_def)
qed
end

text \<open>The knot and the control point at an index. Outside the vector the knot function
  continues with the end knots, which keeps it nondecreasing, and the control points
  with zero.\<close>

definition knot_at :: "real list \<Rightarrow> int \<Rightarrow> real" where
  "knot_at U i = (if i < 0 then U ! 0 else if int (length U) \<le> i then last U else U ! nat i)"

definition ctrl_at :: "'a::zero list \<Rightarrow> int \<Rightarrow> 'a" where
  "ctrl_at P i = (if 0 \<le> i \<and> i < int (length P) then P ! nat i else 0)"



text \<open>One insertion of \<open>x\<close> into the span \<open>k\<close>: the new knots, the ratio \<open>\<alpha>\<^sub>i\<close> of the
  insertion formula, and the new control points \<open>\<alpha>\<^sub>i c\<^sub>i + (1 - \<alpha>\<^sub>i) c\<^sub>i\<^sub>-\<^sub>1\<close>.\<close>

definition knot_inserted :: "(int \<Rightarrow> real) \<Rightarrow> int \<Rightarrow> real \<Rightarrow> int \<Rightarrow> real" where
  "knot_inserted u k x j = (if j \<le> k then u j else if j = k + 1 then x else u (j - 1))"

definition blend :: "(int \<Rightarrow> real) \<Rightarrow> int \<Rightarrow> real \<Rightarrow> nat \<Rightarrow> int \<Rightarrow> real" where
  "blend u k x d i =
     (if i + int d \<le> k then 1
      else if i \<le> k then (x - u i) / (u (i + int d) - u i)
      else 0)"

definition ctrl_inserted ::
  "(int \<Rightarrow> real) \<Rightarrow> int \<Rightarrow> real \<Rightarrow> nat \<Rightarrow> (int \<Rightarrow> 'a::real_vector) \<Rightarrow> int \<Rightarrow> 'a" where
  "ctrl_inserted u k x p c i = blend u k x p i *\<^sub>R c i + (1 - blend u k x p i) *\<^sub>R c (i - 1)"




text \<open>The same after \<open>j\<close> insertions of \<open>x\<close>, the first into the span \<open>k\<close>, each following one
  into the span that the previous insertion created.\<close>

fun knots_inserted :: "(int \<Rightarrow> real) \<Rightarrow> int \<Rightarrow> real \<Rightarrow> nat \<Rightarrow> int \<Rightarrow> real" where
  "knots_inserted u k x 0 = u"
| "knots_inserted u k x (Suc j) = knot_inserted (knots_inserted u k x j) (k + int j) x"

fun ctrls_inserted ::
  "(int \<Rightarrow> real) \<Rightarrow> int \<Rightarrow> real \<Rightarrow> nat \<Rightarrow> (int \<Rightarrow> 'a::real_vector) \<Rightarrow> nat \<Rightarrow> int \<Rightarrow> 'a" where
  "ctrls_inserted u k x p c 0 = c"
| "ctrls_inserted u k x p c (Suc j) =
     ctrl_inserted (knots_inserted u k x j) (k + int j) x p (ctrls_inserted u k x p c j)"



text \<open>A buffer that holds, at every index of \<open>W\<close>, the value of \<open>T\<close> there.\<close>

definition agrees_on :: "(int \<Rightarrow> 'a) \<Rightarrow> int set \<Rightarrow> 'a list \<Rightarrow> bool" where
  "agrees_on T W d \<longleftrightarrow> (\<forall>m\<in>W. 0 \<le> m \<and> m < int (length d) \<and> d ! nat m = T m)"

section \<open>Basic facts about the vector primitives\<close>

lemma bindE_Inr [simp]: "bindE (Inr a) f = f a"
  by (simp add: bindE_def)

lemma bindE_Inl [simp]: "bindE (Inl e) f = Inl e"
  by (simp add: bindE_def)

lemma vget_ok: "0 \<le> i \<Longrightarrow> i < int (length xs) \<Longrightarrow> vget xs i = Inr (xs ! nat i)"
  by (simp add: vget_def)

lemma vset_ok: "0 \<le> i \<Longrightarrow> i < int (length xs) \<Longrightarrow> vset xs i v = Inr (xs[nat i := v])"
  by (simp add: vset_def)

text \<open>A loop whose body keeps an invariant and never fails under it runs to its end.\<close>

lemma forE_invariant:
  assumes "I s"
    and "\<And>i s. i \<in> set is \<Longrightarrow> I s \<Longrightarrow> \<exists>s'. body i s = Inr s' \<and> I s'"
  shows "\<exists>s'. forE is body s = Inr s' \<and> I s'"
  using assms
proof (induction "is" arbitrary: s)
  case Nil
  then show ?case by simp
next
  case (Cons i "is")
  from Cons.prems obtain s1 where s1: "body i s = Inr s1" "I s1"
    by (meson list.set_intros(1))
  have "\<exists>s'. forE is body s1 = Inr s' \<and> I s'"
    by (rule Cons.IH) (use s1 Cons.prems in auto)
  with s1 show ?case by simp
qed

lemma Length_axis: "Length (XYZ a 0 0) = \<bar>a\<bar>"
  by simp

section \<open>Reverse: the caller's buffers\<close>

lemma ReverseKnotVector_returns:
  assumes "knotVector \<noteq> []"
  shows "\<exists>r. ReverseKnotVector knotVector rk = (Inr r :: 'b error + real list)"
proof -
  let ?n = "int (length knotVector)"
  have pos: "0 < ?n" using assms by simp
  obtain r0 where r0: "vresize rk ?n 0 = (Inr r0 :: 'b error + real list)"
      "length r0 = length knotVector"
    by (simp add: vresize_def)
  obtain r1 where r1: "vset r0 0 (knotVector ! 0) = (Inr r1 :: 'b error + real list)"
      "length r1 = length knotVector"
    using pos r0 by (simp add: vset_def)
  have "\<exists>s'. forE [1..?n - 1] (\<lambda>i r.
        bindE (vget r (i - 1)) (\<lambda>prev.
        bindE (vget knotVector (?n - i)) (\<lambda>hi.
        bindE (vget knotVector (?n - i - 1)) (\<lambda>lo.
        vset r i (prev + (hi - lo)))))) r1 = (Inr s' :: 'b error + real list)
           \<and> length s' = length knotVector"
  proof (rule forE_invariant)
    show "length r1 = length knotVector" by (rule r1)
  next
    fix i and s :: "real list"
    assume "i \<in> set [1..?n - 1]" and "length s = length knotVector"
    then show "\<exists>s'. bindE (vget s (i - 1)) (\<lambda>prev.
        bindE (vget knotVector (?n - i)) (\<lambda>hi.
        bindE (vget knotVector (?n - i - 1)) (\<lambda>lo.
        vset s i (prev + (hi - lo))))) = (Inr s' :: 'b error + real list)
           \<and> length s' = length knotVector"
      by (simp add: vget_ok vset_ok)
  qed
  then show ?thesis
    using pos r0 r1 by (auto simp: ReverseKnotVector_def Let_def vget_ok)
qed

lemma ReverseControlPoints_returns:
  "\<exists>r. ReverseControlPoints controlPoints rc = (Inr r :: 'b error + XYZW list)"
proof -
  let ?n = "int (length controlPoints)"
  obtain r0 where r0: "vresize rc ?n XYZW_zero = (Inr r0 :: 'b error + XYZW list)"
      "length r0 = length controlPoints"
    by (simp add: vresize_def)
  have "\<exists>s'. forE [0..?n - 1] (\<lambda>i r. bindE (vget controlPoints i) (\<lambda>c. vset r i c)) r0
              = (Inr s' :: 'b error + XYZW list)
           \<and> length s' = length controlPoints"
  proof (rule forE_invariant)
    show "length r0 = length controlPoints" by (rule r0)
  next
    fix i and s :: "XYZW list"
    assume "i \<in> set [0..?n - 1]" and "length s = length controlPoints"
    then show "\<exists>s'. bindE (vget controlPoints i) (\<lambda>c. vset s i c) = (Inr s' :: 'b error + XYZW list)
           \<and> length s' = length controlPoints"
      by (simp add: vget_ok vset_ok)
  qed
  then show ?thesis
    using r0 by (auto simp: ReverseControlPoints_def Let_def)
qed

text \<open>The reversal itself is computed, but only in the local copies.\<close>

lemma ReverseKnotVector_example:
  "ReverseKnotVector [0, 0, 1, 3, 3] [] = (Inr [0, 0, 2, 3, 3] :: unit error + real list)"
  by code_simp

lemma ReverseControlPoints_example:
  "ReverseControlPoints [XYZW 0 0 0 1, XYZW 1 2 0 1] [XYZW 9 9 9 9]
     = (Inr [XYZW 1 2 0 1, XYZW 0 0 0 1] :: unit error + XYZW list)"
  by code_simp

text \<open>
  Claim C9. For every knot vector (a non-empty sequence) and every control-point list,
  \<^verbatim>\<open>Reverse\<close> returns with the caller's \<open>reversedKnotVector\<close> and \<open>reversedControlPoints\<close>
  exactly as they were before the call: the two helpers work on by-value copies, so no
  reversed data reaches the caller.
\<close>

theorem Reverse_leaves_outputs:
  assumes "knotVector \<noteq> []"
  shows "Reverse knotVector controlPoints (reversedKnotVector, reversedControlPoints)
           = (Inr (reversedKnotVector, reversedControlPoints) :: 'b error + buffers)"
  using ReverseKnotVector_returns [OF assms, of reversedKnotVector, where ?'b = 'b]
    ReverseControlPoints_returns [of controlPoints reversedControlPoints, where ?'b = 'b]
  by (auto simp: Reverse_def)

theorem Reverse_leaves_outputs_witness:
  "[0, 0, 1, 3, 3 :: real] \<noteq> [] \<and>
   Reverse [0, 0, 1, 3, 3] [XYZW 0 0 0 1, XYZW 1 2 0 1, XYZW 4 0 0 1] ([7], [XYZW 9 9 9 9])
     = (Inr ([7], [XYZW 9 9 9 9]) :: unit error + buffers)"
  using Reverse_leaves_outputs
    [of "[0, 0, 1, 3, 3]" "[XYZW 0 0 0 1, XYZW 1 2 0 1, XYZW 4 0 0 1]" "[7]" "[XYZW 9 9 9 9]"]
  by simp

section \<open>InsertKnot\<close>

text \<open>Inside the domain the insertion keeps the curve: scenario S2 of the spec, the
  cubic of scenario S1 with \<open>5/2\<close> inserted twice, evaluated at \<open>5/2\<close>.\<close>

lemma InsertKnot_S2_before:
  "GetPointOnCurve 3 [0, 0, 0, 0, 1, 2, 3, 4, 5, 5, 5, 5] (5 / 2)
     [XYZW 0 0 0 1, XYZW 1 1 0 4, XYZW 3 2 0 1, XYZW 4 1 0 1, XYZW 5 (- 1) 0 1, XYZW 6 0 0 1,
      XYZW 7 1 0 1, XYZW 8 0 0 1]
   = Inr (XYZ (9 / 2) (1 / 24) 0)"
  by code_simp

lemma InsertKnot_S2_after:
  "(case InsertKnot 3 [0, 0, 0, 0, 1, 2, 3, 4, 5, 5, 5, 5]
       [XYZW 0 0 0 1, XYZW 1 1 0 4, XYZW 3 2 0 1, XYZW 4 1 0 1, XYZW 5 (- 1) 0 1, XYZW 6 0 0 1,
        XYZW 7 1 0 1, XYZW 8 0 0 1] (5 / 2) 2 ([], []) of
      Inl e \<Rightarrow> Inl (InvalidArgument ())
    | Inr (U', P') \<Rightarrow> GetPointOnCurve 3 U' (5 / 2) P')
   = Inr (XYZ (9 / 2) (1 / 24) 0)"
  by code_simp

text \<open>
  \<^verbatim>\<open>InsertKnot\<close> does not check that the inserted value lies in \<open>[U[0], U[m]]\<close>, as
  \<^verbatim>\<open>RemoveKnot\<close> does for the value it removes. On the quadratic with knots
  \<open>0, 0, 0, 1, 1, 1\<close> the value \<open>5\<close> has multiplicity \<open>0\<close>, one insertion returns the decreasing
  knot vector \<open>0, 0, 0, 5, 1, 1, 1\<close>, and the evaluation at \<open>t = 1/2\<close>, which gave
  \<open>(1, 1/2, 0)\<close> before, is refused afterwards.
\<close>

lemma InsertKnot_outside_range:
  "GetKnotMultiplicity [0, 0, 0, 1, 1, 1] 5 = 0
   \<and> GetPointOnCurve 2 [0, 0, 0, 1, 1, 1] (1 / 2) [XYZW 0 0 0 1, XYZW 1 1 0 1, XYZW 2 0 0 1]
       = Inr (XYZ 1 (1 / 2) 0)
   \<and> InsertKnot 2 [0, 0, 0, 1, 1, 1] [XYZW 0 0 0 1, XYZW 1 1 0 1, XYZW 2 0 0 1] 5 1 ([], [])
       = Inr ([0, 0, 0, 5, 1, 1, 1],
              [XYZW 0 0 0 1, XYZW 5 5 0 1, XYZW 6 (- 4) 0 1, XYZW 2 0 0 1])
   \<and> GetPointOnCurve 2 [0, 0, 0, 5, 1, 1, 1] (1 / 2)
         [XYZW 0 0 0 1, XYZW 5 5 0 1, XYZW 6 (- 4) 0 1, XYZW 2 0 0 1]
       = Inl (InvalidArgument ())"
  by code_simp

text \<open>
  Claim C4. For every valid curve and requested count, \<^verbatim>\<open>InsertKnot\<close> clamps the count to
  \<open>p - s\<close> and returns a knot vector of length \<open>|U| + times\<close> and control points of length
  \<open>|P| + times\<close>. On the polyline of degree 1 with knots \<open>0, 0, 1, 2, 3, 3\<close> the knot \<open>2\<close>
  has multiplicity \<open>1 = p\<close>, the count is clamped to \<open>0\<close>, \<open>temp\<close> has one element, and the
  last loop of the function reads \<open>temp[1]\<close>: the call does not return the buffers.
\<close>

theorem InsertKnot_full_multiplicity_out_of_range:
  "InsertKnot 1 [0, 0, 1, 2, 3, 3] [XYZW 0 0 0 1, XYZW 1 1 0 1, XYZW 2 0 0 1, XYZW 3 1 0 1]
     2 1 ([], []) = Inl IndexOutOfRange"
  by code_simp

text \<open>At an end knot of a clamped curve \<open>p - s = -1\<close>: both buffers come back one slot
  shorter than the input, and the second control point is never written.\<close>

lemma InsertKnot_end_knot:
  "InsertKnot 2 [0, 0, 0, 1, 1, 1] [XYZW 0 0 0 1, XYZW 1 1 0 1, XYZW 2 0 0 1] 1 1 ([], [])
     = Inr ([0, 0, 1, 1, 1], [XYZW 0 0 0 1, XYZW 0 0 0 0])"
  by code_simp

text \<open>A requested count near the largest \<^verbatim>\<open>int\<close>: the sum of line 88 leaves the range of
  \<^verbatim>\<open>int\<close> before the count can be clamped, and the call does not return buffers.\<close>

lemma InsertKnot_count_overflow:
  "InsertKnot 2 [0, 0, 0, 1, 2, 2, 2] [XYZW 0 0 0 1, XYZW 1 1 0 1, XYZW 2 0 0 1, XYZW 3 1 0 1]
     1 2147483647 ([], []) = Inl SignedOverflow"
  by code_simp

section \<open>Validation before the first write\<close>

lemma InsertKnot_invalid:
  assumes "\<not> (degree > 0 \<and> knotVector \<noteq> [] \<and> IsValidKnotVector knotVector \<and> controlPoints \<noteq> []
             \<and> IsValidNurbs degree (length knotVector) (length controlPoints) \<and> times0 > 0)"
  shows "InsertKnot degree knotVector controlPoints insertKnot times0 out = Inl (InvalidArgument out)"
  using assms by (cases out) (auto simp: InsertKnot_def VALIDATE_ARGUMENT_def)

lemma RefineKnotVector_invalid:
  assumes "\<not> (degree > 0 \<and> knotVector \<noteq> [] \<and> IsValidKnotVector knotVector \<and> controlPoints \<noteq> []
             \<and> IsValidNurbs degree (length knotVector) (length controlPoints)
             \<and> insertKnotElements \<noteq> [])"
  shows "RefineKnotVector degree knotVector controlPoints insertKnotElements out
           = Inl (InvalidArgument out)"
  using assms by (cases out) (auto simp: RefineKnotVector_def VALIDATE_ARGUMENT_def)

text \<open>The checks that \<^verbatim>\<open>InsertKnot\<close> and \<^verbatim>\<open>RefineKnotVector\<close> do make come before every write:
  a non-positive degree, an empty or decreasing knot vector, an empty control net or
  \<open>|U| \<noteq> |P| + p + 1\<close> makes both fail with the caller's buffers exactly as passed.\<close>

lemma validation_leaves_buffers:
  assumes "\<not> (degree > 0 \<and> knotVector \<noteq> [] \<and> IsValidKnotVector knotVector \<and> controlPoints \<noteq> []
             \<and> IsValidNurbs degree (length knotVector) (length controlPoints))"
  shows "InsertKnot degree knotVector controlPoints insertKnot times0 out = Inl (InvalidArgument out)
       \<and> RefineKnotVector degree knotVector controlPoints insertKnotElements out
           = Inl (InvalidArgument out)"
  using assms InsertKnot_invalid [of degree knotVector controlPoints times0 insertKnot out]
    RefineKnotVector_invalid [of degree knotVector controlPoints insertKnotElements out]
  by blast

lemma validation_leaves_buffers_example:
  "InsertKnot 2 [0, 0, 0, 1, 1] [XYZW 0 0 0 1, XYZW 1 1 0 1, XYZW 2 0 0 1] (1 / 2) 1
        ([7], [XYZW 9 9 9 9]) = Inl (InvalidArgument ([7], [XYZW 9 9 9 9]))
   \<and> RefineKnotVector 2 [0, 0, 0, 1, 1] [XYZW 0 0 0 1, XYZW 1 1 0 1, XYZW 2 0 0 1] [1 / 2]
        ([7], [XYZW 9 9 9 9]) = Inl (InvalidArgument ([7], [XYZW 9 9 9 9]))"
  by (rule validation_leaves_buffers) (simp add: IsValidNurbs_def)


text \<open>\<^verbatim>\<open>CreateTransform\<close> has no validation at all: an empty control net is accepted, the call
  returns, and the caller's buffer comes back emptied.\<close>

lemma CreateTransform_empty_net_returns:
  "CreateTransform [] id [XYZW 9 9 9 9] = (Inr [] :: unit error + XYZW list)"
  by code_simp

section \<open>RemoveKnot on a knot that cannot be removed\<close>

lemma RemoveKnot_example_span:
  "GetKnotSpanIndex 2 [0, 0, 0, 1, 2, 2, 2] 1 = (Inr 3 :: buffers error + int)"
  by code_simp

lemma RemoveKnot_example_multiplicity: "GetKnotMultiplicity [0, 0, 0, 1, 2, 2, 2] 1 = 1"
  by code_simp

lemma RemoveKnot_example_tolerance:
  "ComputeCurveModifyTolerance [XYZW 0 0 0 1, XYZW 1 0 0 1, XYZW 4 0 0 1, XYZW 5 0 0 1]
     = 1 / 6000000"
  by (simp add: ComputeCurveModifyTolerance_def Length_axis DistanceEpsilon_def
      del: Length.simps)

lemma RemoveKnot_example_rebuild:
  "removeRebuild [0, 0, 0, 1, 2, 2, 2]
     [XYZW 0 0 0 1, XYZW 1 0 0 1, XYZW 4 0 0 1, XYZW 5 0 0 1] 1 3 0
     (1, 2, 1, 2, [XYZW 0 0 0 1, XYZW 0 0 0 0, XYZW 0 0 0 0, XYZW 5 0 0 1, XYZW 0 0 0 0])
   = (Inr (2, 1, 2, 1, [XYZW 0 0 0 1, XYZW 2 0 0 1, XYZW 3 0 0 1, XYZW 5 0 0 1, XYZW 0 0 0 0])
       :: buffers error + rebuild_state)"
  by code_simp

text \<open>The only attempt rebuilds \<open>(2,0,0,1)\<close> from the left and \<open>(3,0,0,1)\<close> from the right:
  they are at distance 1, far beyond the tolerance, and \<open>remflag\<close> stays \<open>false\<close>.\<close>

lemma RemoveKnot_example_test:
  "removeTest [0, 0, 0, 1, 2, 2, 2]
     [XYZW 0 0 0 1, XYZW 1 0 0 1, XYZW 4 0 0 1, XYZW 5 0 0 1] 1 3 (1 / 6000000) 0 1 2
     [XYZW 0 0 0 0, XYZW 0 0 0 0, XYZW 0 0 0 0, XYZW 0 0 0 0, XYZW 0 0 0 0]
   = (Inr (False, [XYZW 0 0 0 1, XYZW 2 0 0 1, XYZW 3 0 0 1, XYZW 5 0 0 1, XYZW 0 0 0 0])
       :: buffers error + bool \<times> XYZW list)"
  by (simp add: removeTest_def Let_def RemoveKnot_example_rebuild vget_def vset_def
      IsLessThanOrEqual_def IsAlmostEqualTo_def DoubleEpsilon_def)

text \<open>
  Claim C3. \<^verbatim>\<open>RemoveKnot\<close> commits an attempt only when the rebuilt control points agree
  within the tolerance, trims one slot per committed removal, stops at the first
  attempt that fails and returns the number of removals. On the quadratic with knots
  \<open>0, 0, 0, 1, 2, 2, 2\<close> the knot \<open>1\<close> fails the test (\<open>RemoveKnot_example_test\<close>), and the
  function, which returns \<^verbatim>\<open>void\<close>, still hands back a knot vector and control points
  that are one slot shorter.
\<close>

theorem RemoveKnot_trims_after_failed_test:
  "RemoveKnot 2 [0, 0, 0, 1, 2, 2, 2]
     [XYZW 0 0 0 1, XYZW 1 0 0 1, XYZW 4 0 0 1, XYZW 5 0 0 1] 1 1 (outU, outP)
   = Inr ([0, 0, 0, 2, 2, 2], [XYZW 0 0 0 1, XYZW 4 0 0 1, XYZW 5 0 0 1])"
  by (simp add: RemoveKnot_def VALIDATE_ARGUMENT_def VALIDATE_ARGUMENT_RANGE_def
      IsValidKnotVector_def IsValidNurbs_def Let_def RemoveKnot_example_span
      RemoveKnot_example_multiplicity RemoveKnot_example_tolerance RemoveKnot_example_test
      upto_rec1 vget_def vset_def vpop_back_def vresize_def cdiv_def XYZW_zero_def
      numeral_eq_Suc)

section \<open>EquallyTessellate on a straight segment\<close>

text \<open>
  Claim C8. \<^verbatim>\<open>EquallyTessellate\<close> samples every interval \<open>[uniqueKv[i], uniqueKv[i+1]]\<close> of
  distinct knots in 100 steps from the left end, evaluates the curve there, and appends
  the last knot with the projected last control point. The code reads \<open>uniqueKv[i - 1]\<close>
  for the right end of the interval: on the segment from \<open>(0,0,0)\<close> to \<open>(1,0,0)\<close> with
  knots \<open>0, 0, 1, 1\<close> the first interval has \<open>i = 0\<close> and the read is outside the vector.
\<close>

theorem EquallyTessellate_segment_out_of_range:
  "EquallyTessellate 1 [0, 0, 1, 1] [XYZW 0 0 0 1, XYZW 1 0 0 1] ([], []) = Inl IndexOutOfRange"
  by code_simp

section \<open>GlobalInterpolation into an empty buffer\<close>

text \<open>
  Claim C10. Every write of \<^verbatim>\<open>GlobalInterpolation\<close> at the indices \<open>0 .. |Q| - 1\<close> of the
  output control points is inside the buffer. The function never resizes the buffer:
  with two through-points and an empty buffer, whatever the interpolation helpers
  return, the first assignment \<open>controlPoints[0] = ...\<close> is outside it.
\<close>

theorem GlobalInterpolation_empty_buffer_out_of_range:
  "GlobalInterpolation GetChordParameterization ComputeKnotVector MakeInterpolationMatrix
     ComputerControlPointsByLUDecomposition 1 [XYZ 0 0 0, XYZ 1 0 0] ([], [])
   = (Inl IndexOutOfRange :: unit error + buffers)"
  by (simp add: GlobalInterpolation_def Let_def upto_rec1 vget_def vset_def bindE_def
      split: sum.splits)

section \<open>The Newton iteration of GetParamOnCurve\<close>

text \<open>What the source does with a candidate outside \<open>[a, b]\<close>: it clamps when the net is
  closed and wraps when it is open.\<close>

lemma NewtonStepIntoDomain_closed:
  "a \<le> b \<Longrightarrow> NewtonStepIntoDomain True a b t = max a (min b t)"
  by (auto simp: NewtonStepIntoDomain_def Let_def)

lemma NewtonStepIntoDomain_open:
  "a \<le> b \<Longrightarrow> NewtonStepIntoDomain False a b t =
     (if t < a then b - (a - t) else if t > b then a + (t - b) else t)"
  by (auto simp: NewtonStepIntoDomain_def Let_def)

lemma segment_derivatives_inside:
  "0 \<le> t \<Longrightarrow> t \<le> 1 \<Longrightarrow>
   ComputeRationalCurveDerivatives segmentDerivatives 1 2 [0, 0, 1, 1] t
     [XYZW 0 0 0 1, XYZW 1 0 0 1] = Inr [XYZ t 0 0, XYZ 1 0 0, XYZ 0 0 0]"
  by (simp add: ComputeRationalCurveDerivatives_def VALIDATE_ARGUMENT_def
      VALIDATE_ARGUMENT_RANGE_def IsValidKnotVector_def IsValidNurbs_def vget_def vset_def
      vresize_def segmentDerivatives_def upto_size_def upto_rec1 XYZ_zero_def Binomial_def
      numeral_eq_Suc)

lemma segment_derivatives_outside:
  "1 < t \<Longrightarrow>
   ComputeRationalCurveDerivatives segmentDerivatives 1 2 [0, 0, 1, 1] t
     [XYZW 0 0 0 1, XYZW 1 0 0 1] = Inl (InvalidArgument ())"
  by (simp add: ComputeRationalCurveDerivatives_def VALIDATE_ARGUMENT_def
      VALIDATE_ARGUMENT_RANGE_def IsValidKnotVector_def IsValidNurbs_def vget_def)

lemma segment_point_0:
  "GetPointOnCurve 1 [0, 0, 1, 1] 0 [XYZW 0 0 0 1, XYZW 1 0 0 1] = Inr (XYZ 0 0 0)"
  by code_simp

lemma segment_point_1:
  "GetPointOnCurve 1 [0, 0, 1, 1] 1 [XYZW 0 0 0 1, XYZW 1 0 0 1] = Inr (XYZ 1 0 0)"
  by code_simp

text \<open>Projecting \<open>(5/2, 0, 0)\<close> on the open segment: the first Newton step proposes \<open>5/2\<close>,
  the open branch wraps it to \<open>3/2\<close>, and the second pass asks for the derivatives at
  \<open>3/2\<close>, outside the knots.\<close>

lemma segment_newton_second_pass:
  "NewtonLoop segmentDerivatives 1 [0, 0, 1, 1] [XYZW 0 0 0 1, XYZW 1 0 0 1] (XYZ (5 / 2) 0 0)
     False 0 1 10 1 (3 / 2) = Inl (InvalidArgument ())"
  by (subst NewtonLoop.simps) (simp add: segment_derivatives_outside)

lemma segment_newton_first_pass:
  "0 \<le> t \<Longrightarrow> t \<le> 1 / 2 \<Longrightarrow>
   NewtonLoop segmentDerivatives 1 [0, 0, 1, 1] [XYZW 0 0 0 1, XYZW 1 0 0 1] (XYZ (5 / 2) 0 0)
     False 0 1 10 0 t = Inl (InvalidArgument ())"
  by (subst NewtonLoop.simps)
    (simp add: segment_derivatives_inside vget_def Let_def NewtonStepIntoDomain_def
      DistanceEpsilon_def segment_newton_second_pass Length_axis del: Length.simps)

text \<open>
  Claim C5. In the Newton refinement of \<^verbatim>\<open>GetParamOnCurve\<close> a candidate parameter is wrapped
  into \<open>[U[0], U[m]]\<close> when the control net is closed and clamped to it when the curve is
  open. The source has the two branches the other way round: with \<open>isClosed\<close> the
  candidate \<open>5/2\<close> is clamped to \<open>1\<close>, without it the candidate becomes \<open>3/2\<close>, and the
  projection of \<open>(5/2, 0, 0)\<close> on the open segment from \<open>(0,0,0)\<close> to \<open>(1,0,0)\<close> ends in the
  range check of the next derivative evaluation instead of returning \<open>1\<close>.
\<close>

theorem GetParamOnCurve_open_segment_wraps:
  "NewtonStepIntoDomain True 0 1 (5 / 2) = 1
   \<and> NewtonStepIntoDomain False 0 1 (5 / 2) = 3 / 2
   \<and> GetParamOnCurve segmentDerivatives (\<lambda>controlPoints. False) MaxDistance 1 [0, 0, 1, 1]
        [XYZW 0 0 0 1, XYZW 1 0 0 1] (XYZ (5 / 2) 0 0) = Inl (InvalidArgument ())"
proof (intro conjI)
  show "NewtonStepIntoDomain True 0 1 (5 / 2) = 1"
    by (simp add: NewtonStepIntoDomain_def)
  show "NewtonStepIntoDomain False 0 1 (5 / 2) = 3 / 2"
    by (simp add: NewtonStepIntoDomain_def)
  show "GetParamOnCurve segmentDerivatives (\<lambda>controlPoints. False) MaxDistance 1 [0, 0, 1, 1]
        [XYZW 0 0 0 1, XYZW 1 0 0 1] (XYZ (5 / 2) 0 0) = Inl (InvalidArgument ())"
    by (simp add: GetParamOnCurve_def VALIDATE_ARGUMENT_def IsValidKnotVector_def
        IsValidNurbs_def vget_def Let_def upto_rec1 segment_point_0 segment_point_1 Length_axis
        segment_newton_first_pass DoubleEpsilon_def del: Length.simps)
qed

text \<open>The loop is defined by recursion on \<open>maxIterations - counters\<close>, so it returns on
  every input, and it returns after at most \<open>maxIterations\<close> completed passes.\<close>

lemma NewtonLoop_counter:
  "NewtonLoop cd p U P q c a b mx k t = Inr (t', k') \<Longrightarrow> k \<le> mx \<Longrightarrow> k \<le> k' \<and> k' \<le> mx"
proof (induction cd p U P q c a b mx k t rule: NewtonLoop.induct)
  case (1 cd p U P q c a b mx k t)
  show ?case
  proof (cases "k < mx")
    case False
    with "1.prems" show ?thesis by (subst (asm) NewtonLoop.simps) simp
  next
    case True
    from "1.prems"(1) show ?thesis
      apply (subst (asm) NewtonLoop.simps)
      using True "1.IH"
      apply (auto simp: bindE_def Let_def split: sum.splits if_splits)
       apply fastforce+
      done
  qed
qed

lemma NewtonLoop_at_most_ten_iterations:
  "NewtonLoop cd p U P q c a b 10 0 t = Inr (t', k) \<Longrightarrow> k \<le> 10"
  using NewtonLoop_counter [of cd p U P q c a b 10 0 t t' k] by simp

section \<open>DecomposeToBeziers on a polyline\<close>

text \<open>A polyline of degree 1 with three control points and knots \<open>0, 0, 1, 2, 2\<close>. The loop
  starts with \<open>a = 1\<close>, \<open>b = 2\<close>, \<open>m = 4\<close>. The interior knot has multiplicity \<open>1\<close>, which is
  not below the degree, so the body of \<^verbatim>\<open>if (multi < degree)\<close>, the only place that
  advances \<open>b\<close>, is skipped: one pass of the loop leaves the state as it was.\<close>

lemma polyline_step_fixed:
  "DecomposeStep 1 [0, 0, 1, 2, 2] P 4
     (1, 2, 0, [[XYZW 0 0 0 1, XYZW 1 1 0 1], [XYZW 0 0 0 0, XYZW 0 0 0 0]])
   = (Inr (1, 2, 0, [[XYZW 0 0 0 1, XYZW 1 1 0 1], [XYZW 0 0 0 0, XYZW 0 0 0 0]])
       :: unit error + decompose_state)"
  unfolding DecomposeStep_def
  by (subst skipEqualKnots.simps) (simp add: vget_def IsAlmostEqualTo_def DoubleEpsilon_def)

lemma polyline_loop_never_returns:
  "DecomposeLoop 1 [0, 0, 1, 2, 2] P 4
     (1, 2, 0, [[XYZW 0 0 0 1, XYZW 1 1 0 1], [XYZW 0 0 0 0, XYZW 0 0 0 0]]) = None"
proof (rule ccontr)
  let ?U = "[0, 0, 1, 2, 2 :: real]"
  let ?st = "(1 :: int, 2 :: int, 0 :: int,
              [[XYZW 0 0 0 1, XYZW 1 1 0 1], [XYZW 0 0 0 0, XYZW 0 0 0 0]])"
  assume "DecomposeLoop 1 ?U P 4 ?st \<noteq> None"
  then obtain y where y: "DecomposeLoop 1 ?U P 4 ?st = Some y"
    by auto
  have "\<not> ((1::int) = 1 \<and> ?U = ?U \<and> (4::int) = 4 \<and> ?st = ?st)"
  proof (rule DecomposeLoop.raw_induct
      [where P = "\<lambda>d U P' m st y. \<not> (d = 1 \<and> U = ?U \<and> m = 4 \<and> st = ?st)", OF _ y])
    fix f :: "int \<Rightarrow> real list \<Rightarrow> XYZW list \<Rightarrow> int \<Rightarrow> decompose_state \<Rightarrow>
              (unit error + XYZW list list) option"
    fix d U P' m st z
    assume IH: "\<And>d U P' m st y. f d U P' m st = Some y \<Longrightarrow>
                  \<not> (d = 1 \<and> U = ?U \<and> m = 4 \<and> st = ?st)"
    assume eq: "(case st of (a, b, nb, dcp) \<Rightarrow>
        if b < m
        then case DecomposeStep d U P' m st of
               Inl e \<Rightarrow> Some (Inl e)
             | Inr st' \<Rightarrow> f d U P' m st'
        else Some (Inr dcp)) = Some z"
    show "\<not> (d = 1 \<and> U = ?U \<and> m = 4 \<and> st = ?st)"
    proof
      assume h: "d = 1 \<and> U = ?U \<and> m = 4 \<and> st = ?st"
      have "f 1 ?U P' 4 ?st = Some z"
        using eq h polyline_step_fixed [of P'] by simp
      from IH [OF this] show False by simp
    qed
  qed
  then show False by simp
qed

text \<open>
  Claim C7. Every operation of the engine returns on every valid input, and the Newton
  loop of \<^verbatim>\<open>GetParamOnCurve\<close> makes at most 10 iterations. The second part holds
  (\<open>NewtonLoop_at_most_ten_iterations\<close>). The first does not: \<^verbatim>\<open>DecomposeToBeziers\<close> never
  returns on the polyline above, a valid curve.
\<close>

theorem DecomposeToBeziers_polyline_never_returns:
  "DecomposeToBeziers 1 [0, 0, 1, 2, 2] [XYZW 0 0 0 1, XYZW 1 1 0 1, XYZW 2 0 0 1] = None"
  using polyline_loop_never_returns
  by (simp add: DecomposeToBeziers_def IsValidKnotVector_def IsValidNurbs_def Let_def
      vresize_def upto_rec1 vget_def vset_def vset2_def XYZW_zero_def numeral_eq_Suc)

section \<open>CreateArc never reports success\<close>

text \<open>The knot vector is resized to \<open>2 \<cdot> narcs + 3\<close> entries, and the three closing knots are
  written at \<open>2 \<cdot> narcs + 1\<close>, \<open>2 \<cdot> narcs + 2\<close> and \<open>2 \<cdot> narcs + 3\<close>.\<close>

lemma knot_end_writes_fail:
  assumes "int (length kv) = j + 2" "0 \<le> j"
  shows "forE [0..2] (\<lambda>i knotVector.
           bindE (vset knotVector i 0) (\<lambda>knotVector'.
           vset knotVector' (i + j) 1)) kv = (Inl IndexOutOfRange :: 'b error + real list)"
  using assms
  by (auto simp: upto_rec1 vset_def bindE_def split: sum.splits)

lemma arcLoop_error:
  "arcLoop R c nX nY xr yr dt w1 narcs is st = Inl e \<Longrightarrow> e = IndexOutOfRange"
proof (induction "is" arbitrary: st)
  case Nil
  then show ?case by simp
next
  case (Cons i "is")
  then show ?case
    by (auto simp: vset_def bindE_def Let_def split: prod.splits if_splits sum.splits)
qed

lemma vresize_length: "0 \<le> n \<Longrightarrow> \<exists>ys. vresize xs n d = Inr ys \<and> int (length ys) = n"
  by (auto simp: vresize_def)

lemma CreateArc_never_true:
  "CreateArc ComputeRays center xAxis yAxis startRad endRad xRadius yRadius (d0, kv0, cp0)
     = (Inl IndexOutOfRange :: 'b error + bool \<times> arc_out)
   \<or> (\<exists>kv cps.
        CreateArc ComputeRays center xAxis yAxis startRad endRad xRadius yRadius (d0, kv0, cp0)
          = (Inr (False, d0, kv, cps) :: 'b error + bool \<times> arc_out))"
proof -
  define endRad' where "endRad' = (if endRad < startRad then 2 * pi + startRad else endRad)"
  define theta where "theta = endRad' - startRad"
  define narcs :: int where
    "narcs = (if IsLessThanOrEqual theta (pi / 2) then 1
              else if IsLessThanOrEqual theta pi then 2
              else if IsLessThanOrEqual theta (3 * pi / 2) then 3
              else 4)"
  have narcs: "1 \<le> narcs"
    by (simp add: narcs_def)
  obtain kv1 where kv1: "vresize kv0 (2 * narcs + 3) 0 = (Inr kv1 :: 'b error + real list)"
      "int (length kv1) = 2 * narcs + 3"
    using vresize_length [of "2 * narcs + 3" kv0 0] narcs by auto
  obtain cp1 where cp1: "vresize cp0 (2 * narcs) XYZW_zero = (Inr cp1 :: 'b error + XYZW list)"
      "int (length cp1) = 2 * narcs"
    using vresize_length [of "2 * narcs" cp0 XYZW_zero] narcs by auto
  define P0 where
    "P0 = XYZ_add (XYZ_add center (XYZ_scale (xRadius * cos startRad) (Normalize xAxis)))
            (XYZ_scale (yRadius * sin startRad) (Normalize yAxis))"
  obtain cp2 where cp2: "vset cp1 0 (XYZW_of P0 1) = (Inr cp2 :: 'b error + XYZW list)"
    using cp1 narcs by (simp add: vset_def)
  define T0 where
    "T0 = XYZ_add (XYZ_scale (- sin startRad) (Normalize xAxis))
            (XYZ_scale (cos startRad) (Normalize yAxis))"
  define loop :: "'b error + bool \<times> arc_state" where
    "loop = arcLoop ComputeRays center (Normalize xAxis) (Normalize yAxis) xRadius yRadius
              (theta / real_of_int narcs) (cos (theta / real_of_int narcs / 2)) narcs
              [1..narcs - 1] (startRad, 0, P0, T0, cp2)"
  have unfold: "CreateArc ComputeRays center xAxis yAxis startRad endRad xRadius yRadius
                  (d0, kv0, cp0)
      = bindE loop (\<lambda>(completed, angle, index, P0', T0', controlPoints3).
              if \<not> completed then Inr (False, d0, kv1, controlPoints3)
              else
                let j = 2 * narcs + 1 in
                bindE (forE [0..2] (\<lambda>i knotVector.
                         bindE (vset knotVector i 0) (\<lambda>knotVector'.
                         vset knotVector' (i + j) 1)) kv1) (\<lambda>knotVector2.
                bindE (if narcs = 2 then
                         bindE (vset knotVector2 4 (1 / 2)) (\<lambda>kv. vset kv 3 (1 / 2))
                       else if narcs = 3 then
                         bindE (vset knotVector2 4 (real_of_int (1 div 3))) (\<lambda>kv.
                         bindE (vset kv 3 (real_of_int (1 div 3))) (\<lambda>kv.
                         bindE (vset kv 6 (real_of_int (2 div 3))) (\<lambda>kv.
                         vset kv 5 (real_of_int (2 div 3)))))
                       else if narcs = 4 then
                         bindE (vset knotVector2 4 (1 / 4)) (\<lambda>kv.
                         bindE (vset kv 3 (1 / 4)) (\<lambda>kv.
                         bindE (vset kv 6 (1 / 2)) (\<lambda>kv.
                         bindE (vset kv 5 (1 / 2)) (\<lambda>kv.
                         bindE (vset kv 8 (3 / 4)) (\<lambda>kv.
                         vset kv 7 (3 / 4))))))
                       else Inr knotVector2) (\<lambda>knotVector3.
                Inr (True, 2, knotVector3, controlPoints3))))"
    unfolding CreateArc_def Let_def prod.case
    unfolding endRad'_def [symmetric] theta_def [symmetric]
    unfolding narcs_def [symmetric]
    unfolding P0_def [symmetric] T0_def [symmetric]
    by (simp only: kv1 cp1 cp2 bindE_Inr loop_def)
  have fail: "forE [0..2] (\<lambda>i knotVector.
                 bindE (vset knotVector i 0) (\<lambda>knotVector'.
                 vset knotVector' (i + (2 * narcs + 1)) 1)) kv1
              = (Inl IndexOutOfRange :: 'b error + real list)"
    by (rule knot_end_writes_fail) (use kv1 narcs in auto)
  show ?thesis
  proof (cases loop)
    case (Inl e)
    then have "e = IndexOutOfRange"
      unfolding loop_def by (rule arcLoop_error)
    with Inl show ?thesis
      by (simp add: unfold)
  next
    case (Inr r)
    obtain completed angle index P0' T0' cps
      where r: "r = (completed, angle, index, P0', T0', cps)"
      by (cases r) auto
    show ?thesis
      using Inr r fail by (cases completed) (simp_all add: unfold Let_def)
  qed
qed

text \<open>
  Claim C2. For the full unit circle (centre \<open>0\<close>, axes \<open>(1,0,0)\<close> and \<open>(0,1,0)\<close>, radii
  \<open>1\<close>, angles \<open>0\<close> and \<open>2\<pi>\<close>) \<^verbatim>\<open>CreateArc\<close> yields degree 2, 9 control points with weights
  \<open>1, \<surd>2/2, 1, ...\<close> and the 12 knots \<open>0,0,0,1/4,1/4,1/2,1/2,3/4,3/4,1,1,1\<close>. Whatever
  \<^verbatim>\<open>ComputeRays\<close> answers and whatever the caller's buffers hold, the call either returns
  \<^verbatim>\<open>false\<close> with \<open>degree\<close> untouched or writes a knot past the end of the knot vector.
\<close>

theorem CreateArc_circle_fails:
  "CreateArc ComputeRays (XYZ 0 0 0) (XYZ 1 0 0) (XYZ 0 1 0) 0 (2 * pi) 1 1 (d0, kv0, cp0)
     = (Inl IndexOutOfRange :: unit error + bool \<times> arc_out)
   \<or> (\<exists>kv cps.
        CreateArc ComputeRays (XYZ 0 0 0) (XYZ 1 0 0) (XYZ 0 1 0) 0 (2 * pi) 1 1 (d0, kv0, cp0)
          = (Inr (False, d0, kv, cps) :: unit error + bool \<times> arc_out))"
  by (rule CreateArc_never_true)

section \<open>Knot insertion preserves the curve\<close>

text \<open>
  The plan. One insertion of a knot rewrites every basis function of the old knot vector
  as a combination of two basis functions of the new one; summed against the control
  points this is the formula for the new control points, so one insertion keeps the
  curve, and so do \<open>r\<close> of them. It remains to see that the loops of \<^verbatim>\<open>InsertKnot\<close> write
  exactly the knots and control points of \<open>r\<close> insertions, and that \<^verbatim>\<open>GetPointOnCurve\<close>
  evaluates the sum over the span of the parameter.
\<close>

subsection \<open>Identities between the ratios of the recurrence\<close>







subsection \<open>The basis functions under one insertion\<close>




subsection \<open>The curve under one insertion and under several\<close>





lemma knots_inserted_closed:
  "knots_inserted u k x r j = (if j \<le> k then u j else if j \<le> k + int r then x else u (j - int r))"
proof (induction r arbitrary: j)
  case 0
  show ?case by simp
next
  case (Suc r)
  have e: "j - 1 - int r = j - int (Suc r)" by simp
  show ?case unfolding knots_inserted.simps knot_inserted_def Suc e by auto
qed

lemma knots_inserted_mono:
  assumes "mono u" "u k \<le> x" "x < u (k + 1)"
  shows "mono (knots_inserted u k x r)"
proof (rule monoI)
  fix a b :: int assume "a \<le> b"
  have 1: "\<And>i j. i \<le> j \<Longrightarrow> u i \<le> u j" using assms(1) by (simp add: monoD)
  have 2: "\<And>i. i \<le> k \<Longrightarrow> u i \<le> x" using 1[of _ k] assms(2) by force
  have 3: "\<And>i. k + 1 \<le> i \<Longrightarrow> x \<le> u i" using 1[of "k+1"] assms(3) by force
  show "knots_inserted u k x r a \<le> knots_inserted u k x r b"
    using \<open>a \<le> b\<close> 1 2 3 by (auto simp: knots_inserted_closed)
qed



subsection \<open>Loops that run to their end\<close>

(* A counted loop with an invariant that depends on the counter. *)

lemma forE_upto:
  assumes "I a s" "a \<le> b + 1"
    and "\<And>i s. a \<le> i \<Longrightarrow> i \<le> b \<Longrightarrow> I i s \<Longrightarrow> \<exists>s'. body i s = Inr s' \<and> I (i + 1) s'"
  shows "\<exists>s'. forE [a..b] body s = Inr s' \<and> I (b + 1) s'"
  using assms
proof (induction "nat (b + 1 - a)" arbitrary: a s)
  case 0
  then have "a = b + 1" by simp
  then show ?case using 0 by simp
next
  case (Suc m)
  then have ab: "a \<le> b" by linarith
  from Suc.prems(3) [OF _ ab Suc.prems(1)] obtain s1 where s1: "body a s = Inr s1" "I (a + 1) s1"
    by auto
  have "\<exists>s'. forE [a + 1..b] body s1 = Inr s' \<and> I (b + 1) s'"
  proof (rule Suc.hyps(1))
    show "m = nat (b + 1 - (a + 1))" using Suc.hyps(2) by linarith
    show "I (a + 1) s1" by (rule s1)
    show "a + 1 \<le> b + 1" using ab by simp
    show "\<And>i s. a + 1 \<le> i \<Longrightarrow> i \<le> b \<Longrightarrow> I i s \<Longrightarrow> \<exists>s'. body i s = Inr s' \<and> I (i + 1) s'"
      using Suc.prems(3) by simp
  qed
  then show ?case using ab s1 by (simp add: upto_rec1 [of a b])
qed

lemma knot_at_mono:
  assumes "sorted U" "U \<noteq> []"
  shows "mono (knot_at U)"
proof (rule monoI)
  fix a b :: int assume ab: "a \<le> b"
  have l: "last U = U ! (length U - 1)" using assms(2) by (simp add: last_conv_nth)
  have s: "\<And>i j. i \<le> j \<Longrightarrow> j < length U \<Longrightarrow> U ! i \<le> U ! j"
    using assms(1) by (simp add: sorted_iff_nth_mono)
  have len: "0 < length U" using assms(2) by simp
  show "knot_at U a \<le> knot_at U b"
    unfolding knot_at_def l using ab len
    by (auto intro!: s simp: nat_le_iff nat_less_iff)
qed

lemma knot_at_nth: "0 \<le> i \<Longrightarrow> i < int (length U) \<Longrightarrow> knot_at U i = U ! nat i"
  by (simp add: knot_at_def)

(* The binary search keeps \<open>U[low] \<le> t < U[high]\<close> and ends on one span. *)

lemma spanSearch_correct:
  assumes "0 \<le> low" "low < high" "high < int (length U)"
    "U ! nat low \<le> t" "t < U ! nat high"
  shows "\<exists>k. spanSearch U t low high = (Inr k :: 'b error + int) \<and> low \<le> k \<and> k < high
           \<and> U ! nat k \<le> t \<and> t < U ! nat (k + 1)"
  using assms
proof (induction U t low high rule: spanSearch.induct)
  case (1 U t low high)
  show ?case
  proof (cases "high - low \<le> 1")
    case True
    then have h: "high = low + 1" using 1 by linarith
    show ?thesis using 1 h by (subst spanSearch.simps) simp
  next
    case False
    define mid where "mid = (low + high) div 2"
    have m: "low < mid" "mid < high" using False by (auto simp: mid_def)
    have g: "vget U mid = (Inr (U ! nat mid) :: 'b error + real)"
      using m 1 by (simp add: vget_ok)
    show ?thesis
    proof (cases "t < U ! nat mid")
      case True
      have "\<exists>k. spanSearch U t low mid = (Inr k :: 'b error + int) \<and> low \<le> k \<and> k < mid
           \<and> U ! nat k \<le> t \<and> t < U ! nat (k + 1)"
        by (rule "1.IH"(1) [OF False mid_def True]) (use m 1 True in auto)
      then show ?thesis using False True g m
        by (subst spanSearch.simps) (auto simp: mid_def [symmetric] Let_def)
    next
      case F: False
      have "\<exists>k. spanSearch U t mid high = (Inr k :: 'b error + int) \<and> mid \<le> k \<and> k < high
           \<and> U ! nat k \<le> t \<and> t < U ! nat (k + 1)"
        by (rule "1.IH"(2) [OF False mid_def F]) (use m 1 F in auto)
      then show ?thesis using False F g m
        by (subst spanSearch.simps) (auto simp: mid_def [symmetric] Let_def)
    qed
  qed
qed

subsection \<open>The span search and the basis functions of the library\<close>

lemma GetKnotSpanIndex_inside:
  assumes "0 \<le> p" "2 * p + 2 \<le> int (length U)"
    "U ! nat p \<le> t" "t < U ! nat (int (length U) - p - 1)"
  shows "\<exists>k. GetKnotSpanIndex p U t = (Inr k :: 'b error + int) \<and> p \<le> k
           \<and> k \<le> int (length U) - p - 2 \<and> U ! nat k \<le> t \<and> t < U ! nat (k + 1)"
proof -
  define n where "n = int (length U) - p - 2"
  have n1: "int (length U) - p - 1 = n + 1" by (simp add: n_def)
  have n2: "p < n + 1" "n + 1 < int (length U)" "0 \<le> n + 1" using assms by (simp_all add: n_def)
  have t: "t < U ! nat (n + 1)" using assms(4) unfolding n1 .
  have g: "vget U (n + 1) = (Inr (U ! nat (n + 1)) :: 'b error + real)"
    by (rule vget_ok) (rule n2)+
  have ne: "t \<noteq> U ! nat (n + 1)" using t by simp
  have "\<exists>k. spanSearch U t p (n + 1) = (Inr k :: 'b error + int) \<and> p \<le> k \<and> k < n + 1
           \<and> U ! nat k \<le> t \<and> t < U ! nat (k + 1)"
    by (rule spanSearch_correct [OF assms(1) n2(1) n2(2) assms(3) t])
  then obtain k where k: "spanSearch U t p (n + 1) = (Inr k :: 'b error + int)" "p \<le> k" "k < n + 1"
     "U ! nat k \<le> t" "t < U ! nat (k + 1)" by blast
  have "GetKnotSpanIndex p U t = (Inr k :: 'b error + int)"
    unfolding GetKnotSpanIndex_def n_def [symmetric] Let_def g bindE_Inr using ne k(1) by simp
  moreover have "k \<le> int (length U) - p - 2" using k(3) by (simp add: n_def)
  ultimately show ?thesis using k by blast
qed





subsection \<open>The evaluation of a point\<close>

lemma ctrl_at_nth: "0 \<le> i \<Longrightarrow> i < int (length P) \<Longrightarrow> ctrl_at P i = P ! nat i"
  by (simp add: ctrl_at_def)




subsection \<open>The control points of repeated insertion\<close>

text \<open>Which control points an insertion leaves alone, which it shifts, and which it
  blends with the ratio that \<^verbatim>\<open>InsertKnot\<close> computes as \<open>alpha\<close>.\<close>

lemma ctrls_inserted_Suc_low:
  assumes "m + int p \<le> k + int j"
  shows "ctrls_inserted u k x p c (Suc j) m = ctrls_inserted u k x p c j m"
  using assms by (simp add: ctrl_inserted_def blend_def)

lemma ctrls_inserted_low:
  assumes "m + int p \<le> k + int j"
  shows "ctrls_inserted u k x p c (j + d) m = ctrls_inserted u k x p c j m"
proof (induction d)
  case 0
  show ?case by simp
next
  case (Suc d)
  have "ctrls_inserted u k x p c (Suc (j + d)) m = ctrls_inserted u k x p c (j + d) m"
    by (rule ctrls_inserted_Suc_low) (use assms in simp)
  then show ?case using Suc by simp
qed

lemma ctrls_inserted_Suc_high:
  assumes mult: "\<And>i. k - s < i \<Longrightarrow> i \<le> k \<Longrightarrow> u i = x"
    and m: "k - s < m" and j: "int j < int p - s"
  shows "ctrls_inserted u k x p c (Suc j) m = ctrls_inserted u k x p c j (m - 1)"
proof -
  have 1: "\<not> m + int p \<le> k + int j" using m j by linarith
  have "knots_inserted u k x j m = x" if "m \<le> k + int j"
    using that m mult [of m] by (simp add: knots_inserted_closed)
  then have "blend (knots_inserted u k x j) (k + int j) x p m = 0"
    using 1 by (simp add: blend_def)
  then show ?thesis by (simp add: ctrl_inserted_def)
qed

lemma ctrls_inserted_high:
  assumes mult: "\<And>i. k - s < i \<Longrightarrow> i \<le> k \<Longrightarrow> u i = x"
    and m: "k - s \<le> m" and j: "int (j + d) \<le> int p - s"
  shows "ctrls_inserted u k x p c (j + d) (m + int d) = ctrls_inserted u k x p c j m"
  using j
proof (induction d)
  case 0
  show ?case by simp
next
  case (Suc d)
  have "ctrls_inserted u k x p c (Suc (j + d)) (m + int (Suc d)) = ctrls_inserted u k x p c (j + d) (m + int (Suc d) - 1)"
    by (rule ctrls_inserted_Suc_high [OF mult]) (use m Suc.prems in auto)
  then show ?case using Suc by simp
qed

lemma ctrls_inserted_Suc_mid:
  assumes "k + int j < m + int p" "m \<le> k"
  shows "ctrls_inserted u k x p c (Suc j) m =
     ((x - u m) / (u (m + int p - int j) - u m)) *\<^sub>R ctrls_inserted u k x p c j m
     + (1 - (x - u m) / (u (m + int p - int j) - u m)) *\<^sub>R ctrls_inserted u k x p c j (m - 1)"
  using assms by (simp add: ctrl_inserted_def blend_def knots_inserted_closed)

subsection \<open>The loops of InsertKnot\<close>

lemma agrees_on_update:
  assumes "agrees_on T W d" "0 \<le> i" "i < int (length d)" "v = T i"
  shows "agrees_on T (insert i W) (d[nat i := v])"
  unfolding agrees_on_def
proof
  fix m assume m: "m \<in> insert i W"
  show "0 \<le> m \<and> m < int (length (d[nat i := v])) \<and> d[nat i := v] ! nat m = T m"
  proof (cases "m = i")
    case True
    then show ?thesis using assms by simp
  next
    case False
    then have mW: "m \<in> W" using m by simp
    then have "0 \<le> m" using assms(1) by (simp add: agrees_on_def)
    then have "nat m \<noteq> nat i" using False assms(2) by simp
    then show ?thesis using assms(1) mW by (simp add: agrees_on_def)
  qed
qed

lemma agrees_on_mono: "agrees_on T W d \<Longrightarrow> W' \<subseteq> W \<Longrightarrow> agrees_on T W' d"
  by (auto simp: agrees_on_def)

(* A loop that writes, at the index \<open>g i\<close>, the value the target \<open>T\<close> has there. *)

lemma forE_fill:
  assumes ag: "agrees_on T W d" and len: "length d = N" and ab: "a \<le> b + 1"
    and body: "\<And>i d. a \<le> i \<Longrightarrow> i \<le> b \<Longrightarrow> length d = N \<Longrightarrow>
        body i d = Inr (d[nat (g i) := T (g i)]) \<and> 0 \<le> g i \<and> g i < int N"
  shows "\<exists>d'. forE [a..b] body d = Inr d' \<and> length d' = N \<and> agrees_on T (W \<union> g ` {a..b}) d'"
proof -
  define I where "I i d \<longleftrightarrow> length d = N \<and> agrees_on T (W \<union> g ` {a..i - 1}) d" for i d
  have I0: "I a d" using ag len by (simp add: I_def)
  have step: "\<exists>s'. body i s = Inr s' \<and> I (i + 1) s'" if i: "a \<le> i" "i \<le> b" and Is: "I i s" for i s
  proof -
    have l: "length s = N" using Is by (simp add: I_def)
    note b = body [OF i l]
    have e: "W \<union> g ` {a..i + 1 - 1} = insert (g i) (W \<union> g ` {a..i - 1})"
    proof -
      have "{a..i + 1 - 1} = insert i {a..i - 1}" using i by auto
      then show ?thesis by simp
    qed
    have "agrees_on T (insert (g i) (W \<union> g ` {a..i - 1})) (s[nat (g i) := T (g i)])"
      by (rule agrees_on_update) (use Is b l in \<open>auto simp: I_def\<close>)
    then have "I (i + 1) (s[nat (g i) := T (g i)])"
      unfolding I_def e using l by simp
    then show ?thesis using b by simp
  qed
  have "\<exists>s'. forE [a..b] body d = Inr s' \<and> I (b + 1) s'"
    by (rule forE_upto [where I = I, OF I0 ab]) (rule step)
  then show ?thesis by (simp add: I_def)
qed

(* The inner loop of the source (line 127): the sweep for the \<open>j\<close>-th insertion. *)

lemma InsertKnot_sweep:
  fixes temp :: "XYZW list"
  assumes j: "1 \<le> j" "j \<le> p - s" and s0: "0 \<le> s"
    and k: "p \<le> k" "k + p < int (length U)"
    and len: "length temp = nat (p - s + 1)"
    and old: "\<And>i. 0 \<le> i \<Longrightarrow> i \<le> p - s - (j - 1) \<Longrightarrow>
        temp ! nat i = ctrls_inserted (knot_at U) k x (nat p) c (nat (j - 1)) (k - p + (j - 1) + i)"
  shows "\<exists>temp'. forE [0..p - j - s] (\<lambda>i temp.
                         bindE (vget U (k - p + j + i)) (\<lambda>uLi.
                         bindE (vget U (i + k + 1)) (\<lambda>uik.
                           bindE (vget temp (i + 1)) (\<lambda>t1.
                           bindE (vget temp i) (\<lambda>t0.
                           vset temp i
                             (XYZW_add (XYZW_scale ((x - uLi) / (uik - uLi)) t1)
                                (XYZW_scale (1 - (x - uLi) / (uik - uLi)) t0)))))))
                       temp = (Inr temp' :: 'b error + XYZW list)
        \<and> length temp' = nat (p - s + 1)
        \<and> (\<forall>i. 0 \<le> i \<and> i \<le> p - s - j \<longrightarrow>
              temp' ! nat i = ctrls_inserted (knot_at U) k x (nat p) c (nat j) (k - p + j + i))"
proof -
  let ?u = "knot_at U"
  let ?C = "ctrls_inserted ?u k x (nat p) c"
  let ?body = "\<lambda>i temp.
                         bindE (vget U (k - p + j + i)) (\<lambda>uLi.
                         bindE (vget U (i + k + 1)) (\<lambda>uik.
                           bindE (vget temp (i + 1)) (\<lambda>t1.
                           bindE (vget temp i) (\<lambda>t0.
                           vset temp i
                             (XYZW_add (XYZW_scale ((x - uLi) / (uik - uLi)) t1)
                                (XYZW_scale (1 - (x - uLi) / (uik - uLi)) t0))))))"
  define I where "I i t \<longleftrightarrow> length t = nat (p - s + 1)
      \<and> (\<forall>i'. 0 \<le> i' \<and> i' < i \<longrightarrow> t ! nat i' = ?C (nat j) (k - p + j + i'))
      \<and> (\<forall>i'. i \<le> i' \<and> i' \<le> p - s - (j - 1) \<longrightarrow> t ! nat i' = ?C (nat (j - 1)) (k - p + (j - 1) + i'))"
    for i :: int and t :: "XYZW list"
  have I0: "I 0 temp" using len old by (auto simp: I_def)
  have nj: "nat j = Suc (nat (j - 1))" using j by simp
  have step: "\<exists>s'. ?body i t = (Inr s' :: 'b error + XYZW list) \<and> I (i + 1) s'"
    if i: "0 \<le> i" "i \<le> p - j - s" and It: "I i t" for i t
  proof -
    have l: "length t = nat (p - s + 1)" using It by (simp add: I_def)
    have g1: "vget U (k - p + j + i) = (Inr (?u (k - p + j + i)) :: 'b error + real)"
      using i j k s0 by (simp add: vget_ok knot_at_nth)
    have g2: "vget U (i + k + 1) = (Inr (?u (i + k + 1)) :: 'b error + real)"
      using i j k s0 by (simp add: vget_ok knot_at_nth)
    have t1: "t ! nat (i + 1) = ?C (nat (j - 1)) (k - p + j + i)"
    proof -
      have "t ! nat (i + 1) = ?C (nat (j - 1)) (k - p + (j - 1) + (i + 1))"
        using It i by (simp add: I_def)
      then show ?thesis by (simp add: algebra_simps)
    qed
    have t0: "t ! nat i = ?C (nat (j - 1)) (k - p + j + i - 1)"
    proof -
      have "t ! nat i = ?C (nat (j - 1)) (k - p + (j - 1) + i)"
        using It i by (simp add: I_def)
      then show ?thesis by (simp add: algebra_simps)
    qed
    have g3: "vget t (i + 1) = (Inr (?C (nat (j - 1)) (k - p + j + i)) :: 'b error + XYZW)"
      using i j l t1 by (simp add: vget_ok)
    have g4: "vget t i = (Inr (?C (nat (j - 1)) (k - p + j + i - 1)) :: 'b error + XYZW)"
      using i j l t0 by (simp add: vget_ok)
    define v where "v = XYZW_add (XYZW_scale ((x - ?u (k - p + j + i)) / (?u (i + k + 1) - ?u (k - p + j + i))) (?C (nat (j - 1)) (k - p + j + i)))
                                (XYZW_scale (1 - (x - ?u (k - p + j + i)) / (?u (i + k + 1) - ?u (k - p + j + i))) (?C (nat (j - 1)) (k - p + j + i - 1)))"
    have g5: "vset t i v = (Inr (t[nat i := v]) :: 'b error + XYZW list)"
      using i j l by (simp add: vset_ok)
    have res: "?body i t = (Inr (t[nat i := v]) :: 'b error + XYZW list)"
      unfolding g1 g2 g3 g4 bindE_Inr v_def [symmetric] g5 by (rule refl)
    have e: "k - p + j + i + int (nat p) - int (nat (j - 1)) = i + k + 1"
      using j s0 by simp
    have mid: "?C (Suc (nat (j - 1))) (k - p + j + i) =
       ((x - ?u (k - p + j + i)) / (?u (k - p + j + i + int (nat p) - int (nat (j - 1))) - ?u (k - p + j + i)))
           *\<^sub>R ?C (nat (j - 1)) (k - p + j + i)
       + (1 - (x - ?u (k - p + j + i)) / (?u (k - p + j + i + int (nat p) - int (nat (j - 1))) - ?u (k - p + j + i)))
           *\<^sub>R ?C (nat (j - 1)) (k - p + j + i - 1)"
      by (rule ctrls_inserted_Suc_mid) (use i j s0 in auto)
    have v: "v = ?C (nat j) (k - p + j + i)"
      unfolding nj mid e v_def plus_XYZW_def scaleR_XYZW_def ..
    have "I (i + 1) (t[nat i := v])"
      unfolding I_def
    proof (intro conjI allI impI)
      show "length (t[nat i := v]) = nat (p - s + 1)" using l by simp
    next
      fix i' assume a: "0 \<le> i' \<and> i' < i + 1"
      show "t[nat i := v] ! nat i' = ?C (nat j) (k - p + j + i')"
      proof (cases "i' = i")
        case True
        then show ?thesis using v i j l by simp
      next
        case False
        then have "nat i' \<noteq> nat i" "i' < i" using a i by auto
        then show ?thesis using It a by (simp add: I_def)
      qed
    next
      fix i' assume a: "i + 1 \<le> i' \<and> i' \<le> p - s - (j - 1)"
      then have "nat i' \<noteq> nat i" using i by auto
      then show "t[nat i := v] ! nat i' = ?C (nat (j - 1)) (k - p + (j - 1) + i')"
        using It a by (simp add: I_def)
    qed
    then show ?thesis using res by simp
  qed
  have "\<exists>s'. forE [0..p - j - s] ?body temp = (Inr s' :: 'b error + XYZW list) \<and> I (p - j - s + 1) s'"
    by (rule forE_upto [where I = I, OF I0]) (use j step in auto)
  then obtain t' where t': "forE [0..p - j - s] ?body temp = (Inr t' :: 'b error + XYZW list)"
     and It': "I (p - j - s + 1) t'" by blast
  have "\<forall>i. 0 \<le> i \<and> i \<le> p - s - j \<longrightarrow> t' ! nat i = ?C (nat j) (k - p + j + i)"
    using It' by (simp add: I_def)
  moreover have "length t' = nat (p - s + 1)" using It' by (simp add: I_def)
  ultimately show ?thesis using t' by blast
qed

text \<open>The loop over \<open>j\<close> (line 124): after it \<open>L = k - p + r\<close>, \<open>temp\<close> holds the blended points
  of the last sweep, and the two ends of each sweep have been written into the buffer.\<close>

lemma InsertKnot_rounds:
  fixes temp1 uCP2 :: "XYZW list"
  assumes r: "1 \<le> r" "r \<le> p - s" and s0: "0 \<le> s"
    and k: "p \<le> k" "k + p < int (length U)"
    and mult: "\<And>i. k - s < i \<Longrightarrow> i \<le> k \<Longrightarrow> knot_at U i = x"
    and lt: "length temp1 = nat (p - s + 1)"
    and t1: "\<And>i. 0 \<le> i \<Longrightarrow> i \<le> p - s \<Longrightarrow> temp1 ! nat i = c (k - p + i)"
    and lu: "length uCP2 = N" "k + r \<le> int N"
    and ag: "agrees_on (ctrls_inserted (knot_at U) k x (nat p) c (nat r)) W uCP2"
  shows "\<exists>temp2 uCP3.
       forE [1..r] (\<lambda>j (L0, temp, uCP).
                bindE (forE [0..p - j - s] (\<lambda>i temp.
                         bindE (vget U (k - p + j + i)) (\<lambda>uLi.
                         bindE (vget U (i + k + 1)) (\<lambda>uik.
                           bindE (vget temp (i + 1)) (\<lambda>t1.
                           bindE (vget temp i) (\<lambda>t0.
                           vset temp i
                             (XYZW_add (XYZW_scale ((x - uLi) / (uik - uLi)) t1)
                                (XYZW_scale (1 - (x - uLi) / (uik - uLi)) t0)))))))
                       temp) (\<lambda>temp'.
                bindE (vget temp' 0) (\<lambda>t0.
                bindE (vset uCP (k - p + j) t0) (\<lambda>uCP'.
                bindE (vget temp' (p - j - s)) (\<lambda>td.
                bindE (vset uCP' (k + r - j - s) td)
                  (\<lambda>uCP''. Inr (k - p + j, temp', uCP'')))))))
                (0, temp1, uCP2) = (Inr (k - p + r, temp2, uCP3) :: 'b error + int \<times> XYZW list \<times> XYZW list)
       \<and> length temp2 = nat (p - s + 1)
       \<and> (\<forall>i. 0 \<le> i \<and> i \<le> p - s - r \<longrightarrow>
              temp2 ! nat i = ctrls_inserted (knot_at U) k x (nat p) c (nat r) (k - p + r + i))
       \<and> length uCP3 = N
       \<and> agrees_on (ctrls_inserted (knot_at U) k x (nat p) c (nat r))
            (W \<union> {k - p + 1..k - p + r} \<union> {k - s..k - s + r - 1}) uCP3"
proof -
  let ?u = "knot_at U"
  let ?C = "ctrls_inserted ?u k x (nat p) c"
  let ?sweep = "\<lambda>j temp. forE [0..p - j - s] (\<lambda>i temp.
                         bindE (vget U (k - p + j + i)) (\<lambda>uLi.
                         bindE (vget U (i + k + 1)) (\<lambda>uik.
                           bindE (vget temp (i + 1)) (\<lambda>t1.
                           bindE (vget temp i) (\<lambda>t0.
                           vset temp i
                             (XYZW_add (XYZW_scale ((x - uLi) / (uik - uLi)) t1)
                                (XYZW_scale (1 - (x - uLi) / (uik - uLi)) t0)))))))
                       temp"
  let ?body = "\<lambda>j (L0 :: int, temp, uCP).
                bindE (?sweep j temp) (\<lambda>temp'.
                bindE (vget temp' 0) (\<lambda>t0.
                bindE (vset uCP (k - p + j) t0) (\<lambda>uCP'.
                bindE (vget temp' (p - j - s)) (\<lambda>td.
                bindE (vset uCP' (k + r - j - s) td)
                  (\<lambda>uCP''. Inr (k - p + j, temp', uCP''))))))"
  define J where "J j st = (case st of (L0, temp, uCP) \<Rightarrow>
        (2 \<le> j \<longrightarrow> L0 = k - p + j - 1)
      \<and> length temp = nat (p - s + 1)
      \<and> (\<forall>i. 0 \<le> i \<and> i \<le> p - s - (j - 1) \<longrightarrow>
              temp ! nat i = ?C (nat (j - 1)) (k - p + (j - 1) + i))
      \<and> length uCP = N
      \<and> agrees_on (?C (nat r)) (W \<union> {k - p + 1..k - p + j - 1} \<union> {k - s + r - (j - 1)..k - s + r - 1}) uCP)"
    for j :: int and st :: "int \<times> XYZW list \<times> XYZW list"
  have p0: "1 \<le> p" using r s0 by simp
  have J0: "J 1 (0, temp1, uCP2)"
    using lt t1 lu ag by (simp add: J_def)
  have step: "\<exists>s'. ?body j st = (Inr s' :: 'b error + int \<times> XYZW list \<times> XYZW list) \<and> J (j + 1) s'"
    if j: "1 \<le> j" "j \<le> r" and Jst: "J j st" for j st
  proof -
    obtain L0 temp uCP where st: "st = (L0, temp, uCP)" by (cases st)
    have ltemp: "length temp = nat (p - s + 1)" and luCP: "length uCP = N"
      and old: "\<And>i. 0 \<le> i \<Longrightarrow> i \<le> p - s - (j - 1) \<Longrightarrow>
              temp ! nat i = ?C (nat (j - 1)) (k - p + (j - 1) + i)"
      and agj: "agrees_on (?C (nat r)) (W \<union> {k - p + 1..k - p + j - 1} \<union> {k - s + r - (j - 1)..k - s + r - 1}) uCP"
      using Jst by (simp_all add: J_def st)
    have jps: "j \<le> p - s" using j r by simp
    obtain temp' where sw: "?sweep j temp = (Inr temp' :: 'b error + XYZW list)"
      and lt': "length temp' = nat (p - s + 1)"
      and new: "\<And>i. 0 \<le> i \<Longrightarrow> i \<le> p - s - j \<Longrightarrow> temp' ! nat i = ?C (nat j) (k - p + j + i)"
      using InsertKnot_sweep [OF j(1) jps s0 k ltemp old, where ?'b = 'b] by blast
    have rj: "nat r = nat j + nat (r - j)" using j by simp
    have v0: "temp' ! 0 = ?C (nat r) (k - p + j)"
    proof -
      have "temp' ! nat 0 = ?C (nat j) (k - p + j + 0)" by (rule new) (use jps in auto)
      moreover have "?C (nat j + nat (r - j)) (k - p + j) = ?C (nat j) (k - p + j)"
        by (rule ctrls_inserted_low) (use j k p0 in auto)
      ultimately show ?thesis unfolding rj by simp
    qed
    have vd: "temp' ! nat (p - j - s) = ?C (nat r) (k + r - j - s)"
    proof -
      have e1: "k - p + j + (p - j - s) = k - s" by simp
      have e2: "k - s + int (nat (r - j)) = k + r - j - s" using j by simp
      have "temp' ! nat (p - j - s) = ?C (nat j) (k - p + j + (p - j - s))"
        by (rule new) (use jps in auto)
      also have "\<dots> = ?C (nat j) (k - s)" unfolding e1 ..
      also have "\<dots> = ?C (nat j + nat (r - j)) (k - s + int (nat (r - j)))"
        by (rule ctrls_inserted_high [OF mult, symmetric]) (use j r s0 k p0 in auto)
      also have "\<dots> = ?C (nat r) (k + r - j - s)" unfolding e2 rj [symmetric] ..
      finally show ?thesis .
    qed
    have g1: "vget temp' 0 = (Inr (?C (nat r) (k - p + j)) :: 'b error + XYZW)"
      using lt' jps v0 j by (simp add: vget_def)
    have g2: "vset uCP (k - p + j) (?C (nat r) (k - p + j))
         = (Inr (uCP[nat (k - p + j) := ?C (nat r) (k - p + j)]) :: 'b error + XYZW list)"
      by (rule vset_ok) (use j k lu luCP r s0 p0 in auto)
    have g3: "vget temp' (p - j - s) = (Inr (?C (nat r) (k + r - j - s)) :: 'b error + XYZW)"
      using lt' jps vd s0 j by (simp add: vget_ok)
    have g4: "vset (uCP[nat (k - p + j) := ?C (nat r) (k - p + j)]) (k + r - j - s) (?C (nat r) (k + r - j - s))
         = (Inr (uCP[nat (k - p + j) := ?C (nat r) (k - p + j), nat (k + r - j - s) := ?C (nat r) (k + r - j - s)])
              :: 'b error + XYZW list)"
      by (rule vset_ok) (use j k lu luCP r s0 p0 in auto)
    have res: "?body j st = (Inr (k - p + j, temp',
         uCP[nat (k - p + j) := ?C (nat r) (k - p + j), nat (k + r - j - s) := ?C (nat r) (k + r - j - s)])
           :: 'b error + int \<times> XYZW list \<times> XYZW list)"
      unfolding st prod.case sw bindE_Inr g1 g2 g3 g4 by (rule refl)
    have a1: "agrees_on (?C (nat r)) (insert (k - p + j) (W \<union> {k - p + 1..k - p + j - 1} \<union> {k - s + r - (j - 1)..k - s + r - 1}))
        (uCP[nat (k - p + j) := ?C (nat r) (k - p + j)])"
      by (rule agrees_on_update [OF agj]) (use j k lu luCP r s0 p0 in auto)
    have a2: "agrees_on (?C (nat r)) (insert (k + r - j - s) (insert (k - p + j) (W \<union> {k - p + 1..k - p + j - 1} \<union> {k - s + r - (j - 1)..k - s + r - 1})))
        (uCP[nat (k - p + j) := ?C (nat r) (k - p + j), nat (k + r - j - s) := ?C (nat r) (k + r - j - s)])"
      by (rule agrees_on_update [OF a1]) (use j k lu luCP r s0 p0 in auto)
    have W: "insert (k + r - j - s) (insert (k - p + j) (W \<union> {k - p + 1..k - p + j - 1} \<union> {k - s + r - (j - 1)..k - s + r - 1}))
        = W \<union> {k - p + 1..k - p + (j + 1) - 1} \<union> {k - s + r - (j + 1 - 1)..k - s + r - 1}"
      using j by auto
    have "J (j + 1) (k - p + j, temp',
         uCP[nat (k - p + j) := ?C (nat r) (k - p + j), nat (k + r - j - s) := ?C (nat r) (k + r - j - s)])"
      unfolding J_def prod.case W [symmetric]
    proof (intro conjI allI impI)
      show "k - p + j = k - p + (j + 1) - 1" by simp
      show "length temp' = nat (p - s + 1)" by (rule lt')
      show "length (uCP[nat (k - p + j) := ?C (nat r) (k - p + j), nat (k + r - j - s) := ?C (nat r) (k + r - j - s)]) = N"
        using luCP by simp
      show "agrees_on (?C (nat r)) (insert (k + r - j - s) (insert (k - p + j) (W \<union> {k - p + 1..k - p + j - 1} \<union> {k - s + r - (j - 1)..k - s + r - 1})))
        (uCP[nat (k - p + j) := ?C (nat r) (k - p + j), nat (k + r - j - s) := ?C (nat r) (k + r - j - s)])"
        by (rule a2)
    next
      fix i assume "0 \<le> i \<and> i \<le> p - s - (j + 1 - 1)"
      then have "temp' ! nat i = ?C (nat j) (k - p + j + i)" by (intro new) auto
      then show "temp' ! nat i = ?C (nat (j + 1 - 1)) (k - p + (j + 1 - 1) + i)" by simp
    qed
    then show ?thesis using res by blast
  qed
  have "\<exists>s'. forE [1..r] ?body (0, temp1, uCP2) = (Inr s' :: 'b error + int \<times> XYZW list \<times> XYZW list) \<and> J (r + 1) s'"
    by (rule forE_upto [where I = J, OF J0]) (use r step in auto)
  then obtain L temp2 uCP3 where fin: "forE [1..r] ?body (0, temp1, uCP2) = (Inr (L, temp2, uCP3) :: 'b error + int \<times> XYZW list \<times> XYZW list)"
     and JJ: "J (r + 1) (L, temp2, uCP3)"
    by (metis prod_cases3)
  have L: "L = k - p + r" using JJ r by (simp add: J_def)
  have e: "{k - s + r - (r + 1 - 1)..k - s + r - 1} = {k - s..k - s + r - 1}" "k - p + (r + 1) - 1 = k - p + r"
    by simp_all
  have "length temp2 = nat (p - s + 1)" "length uCP3 = N"
      "\<forall>i. 0 \<le> i \<and> i \<le> p - s - r \<longrightarrow> temp2 ! nat i = ?C (nat r) (k - p + r + i)"
      "agrees_on (?C (nat r)) (W \<union> {k - p + 1..k - p + r} \<union> {k - s..k - s + r - 1}) uCP3"
    using JJ unfolding J_def prod.case e by simp_all
  then show ?thesis using fin unfolding L by blast
qed

lemma vresize_ok:
  assumes "0 \<le> n"
  shows "\<exists>ys. vresize xs n d = (Inr ys :: 'b error + 'a list) \<and> length ys = nat n"
  using assms by (auto simp: vresize_def)

text \<open>All loops of \<^verbatim>\<open>InsertKnot\<close>, in the order of the source: both buffers agree, at
  every index, with \<open>r\<close> insertions.\<close>

lemma InsertKnot_inserts:
  assumes p: "0 < p" and sorted: "sorted U"
    and len: "int (length U) = int (length P) + p + 1" and P: "P \<noteq> []" and r0: "0 < r0"
    and span: "GetKnotSpanIndex p U x = (Inr k :: buffers error + int)"
    and k: "p \<le> k" "k < int (length P)"
    and s: "s = GetKnotMultiplicity U x" and sp: "s < p"
    and mult: "\<And>i. k - s < i \<Longrightarrow> i \<le> k \<Longrightarrow> knot_at U i = x"
    and nov: "s + r0 \<le> 2147483647"
    and r: "r = (if s + r0 > p then p - s else r0)"
  shows "\<exists>U' P'. InsertKnot p U P x r0 out = Inr (U', P')
     \<and> length U' = length U + nat r \<and> length P' = length P + nat r
     \<and> agrees_on (knots_inserted (knot_at U) k x (nat r)) {0..int (length U) + r - 1} U'
     \<and> agrees_on (ctrls_inserted (knot_at U) k x (nat p) (ctrl_at P) (nat r)) {0..int (length P) + r - 1} P'"
proof -
  let ?u = "knot_at U"
  let ?T = "knots_inserted ?u k x (nat r)"
  let ?C = "ctrls_inserted ?u k x (nat p) (ctrl_at P) (nat r)"
  obtain o1 o2 where out: "out = (o1, o2)" by (cases out)
  have s0: "0 \<le> s" by (simp add: s GetKnotMultiplicity_def)
  have r1: "1 \<le> r" "r \<le> p - s" using r r0 sp by auto
  have lU: "0 < length U" using len p by linarith
  have lP: "0 < length P" using P by simp
  have kU: "k + p < int (length U)" "k + 1 < int (length U)" using k len p by auto
  (* the knots *)
  obtain iKV0 where iKV0: "vresize o1 (int (length U) + r) 0 = (Inr iKV0 :: buffers error + real list)"
      and l0: "length iKV0 = length U + nat r"
    using vresize_ok [of "int (length U) + r" o1 0, where ?'b = buffers] r1 by (auto simp: nat_add_distrib)
  have ag0: "agrees_on ?T {} iKV0" by (simp add: agrees_on_def)
  have "\<exists>d'. forE [0..k] (\<lambda>i iKV. bindE (vget U i) (\<lambda>u. vset iKV i u)) iKV0
           = (Inr d' :: buffers error + real list) \<and> length d' = length U + nat r
          \<and> agrees_on ?T ({} \<union> (\<lambda>i. i) ` {0..k}) d'"
  proof (rule forE_fill [OF ag0 l0])
    show "0 \<le> k + 1" using k p by simp
  next
    fix i and d :: "real list" assume i: "0 \<le> i" "i \<le> k" and d: "length d = length U + nat r"
    have "vget U i = (Inr (?T i) :: buffers error + real)"
      using i kU by (simp add: vget_ok knots_inserted_closed knot_at_nth)
    moreover have "vset d i (?T i) = (Inr (d[nat i := ?T i]) :: buffers error + real list)"
      by (rule vset_ok) (use i kU d in auto)
    ultimately show "bindE (vget U i) (\<lambda>u. vset d i u) = (Inr (d[nat i := ?T i]) :: buffers error + real list)
         \<and> 0 \<le> i \<and> i < int (length U + nat r)"
      using i kU by simp
  qed
  then obtain iKV1 where iKV1: "forE [0..k] (\<lambda>i iKV. bindE (vget U i) (\<lambda>u. vset iKV i u)) iKV0
           = (Inr iKV1 :: buffers error + real list)" and l1: "length iKV1 = length U + nat r"
      and ag1: "agrees_on ?T ({} \<union> (\<lambda>i. i) ` {0..k}) iKV1" by blast
  have "\<exists>d'. forE [1..r] (\<lambda>i iKV. vset iKV (k + i) x) iKV1
           = (Inr d' :: buffers error + real list) \<and> length d' = length U + nat r
          \<and> agrees_on ?T (({} \<union> (\<lambda>i. i) ` {0..k}) \<union> (\<lambda>i. k + i) ` {1..r}) d'"
  proof (rule forE_fill [OF ag1 l1])
    show "1 \<le> r + 1" using r1 by simp
  next
    fix i and d :: "real list" assume i: "1 \<le> i" "i \<le> r" and d: "length d = length U + nat r"
    have "?T (k + i) = x" using i by (simp add: knots_inserted_closed)
    moreover have "vset d (k + i) x = (Inr (d[nat (k + i) := x]) :: buffers error + real list)"
      by (rule vset_ok) (use i kU d k p r1 in auto)
    ultimately show "vset d (k + i) x = (Inr (d[nat (k + i) := ?T (k + i)]) :: buffers error + real list)
         \<and> 0 \<le> k + i \<and> k + i < int (length U + nat r)"
      using i kU k p by simp
  qed
  then obtain iKV2 where iKV2: "forE [1..r] (\<lambda>i iKV. vset iKV (k + i) x) iKV1
           = (Inr iKV2 :: buffers error + real list)" and l2: "length iKV2 = length U + nat r"
      and ag2: "agrees_on ?T (({} \<union> (\<lambda>i. i) ` {0..k}) \<union> (\<lambda>i. k + i) ` {1..r}) iKV2" by blast
  have us1: "upto_size (k + 1) (length U) = [k + 1..int (length U) - 1]"
    using k p by (simp add: upto_size_def)
  have "\<exists>d'. forE [k + 1..int (length U) - 1] (\<lambda>i iKV. bindE (vget U i) (\<lambda>u. vset iKV (i + r) u)) iKV2
           = (Inr d' :: buffers error + real list) \<and> length d' = length U + nat r
          \<and> agrees_on ?T ((({} \<union> (\<lambda>i. i) ` {0..k}) \<union> (\<lambda>i. k + i) ` {1..r}) \<union> (\<lambda>i. i + r) ` {k + 1..int (length U) - 1}) d'"
  proof (rule forE_fill [OF ag2 l2])
    show "k + 1 \<le> int (length U) - 1 + 1" using kU by simp
  next
    fix i and d :: "real list" assume i: "k + 1 \<le> i" "i \<le> int (length U) - 1" and d: "length d = length U + nat r"
    have "vget U i = (Inr (?T (i + r)) :: buffers error + real)"
      using i k p r1 by (simp add: vget_ok knots_inserted_closed knot_at_nth)
    moreover have "vset d (i + r) (?T (i + r)) = (Inr (d[nat (i + r) := ?T (i + r)]) :: buffers error + real list)"
      by (rule vset_ok) (use i kU d k p r1 in auto)
    ultimately show "bindE (vget U i) (\<lambda>u. vset d (i + r) u) = (Inr (d[nat (i + r) := ?T (i + r)]) :: buffers error + real list)
         \<and> 0 \<le> i + r \<and> i + r < int (length U + nat r)"
      using i kU k p r1 by simp
  qed
  then obtain iKV3 where iKV3: "forE [k + 1..int (length U) - 1] (\<lambda>i iKV. bindE (vget U i) (\<lambda>u. vset iKV (i + r) u)) iKV2
           = (Inr iKV3 :: buffers error + real list)" and l3: "length iKV3 = length U + nat r"
      and ag3: "agrees_on ?T ((({} \<union> (\<lambda>i. i) ` {0..k}) \<union> (\<lambda>i. k + i) ` {1..r}) \<union> (\<lambda>i. i + r) ` {k + 1..int (length U) - 1}) iKV3" by blast
  have agU: "agrees_on ?T {0..int (length U) + r - 1} iKV3"
  proof (rule agrees_on_mono [OF ag3], rule subsetI)
    fix m assume m: "m \<in> {0..int (length U) + r - 1}"
    consider "m \<le> k" | "k < m" "m \<le> k + r" | "k + r < m" by linarith
    then show "m \<in> (({} \<union> (\<lambda>i. i) ` {0..k}) \<union> (\<lambda>i. k + i) ` {1..r}) \<union> (\<lambda>i. i + r) ` {k + 1..int (length U) - 1}"
    proof cases
      case 1
      then show ?thesis using m by auto
    next
      case 2
      then have "m = k + (m - k)" "m - k \<in> {1..r}" by auto
      then show ?thesis by blast
    next
      case 3
      then have "m = (m - r) + r" "m - r \<in> {k + 1..int (length U) - 1}" using m by auto
      then show ?thesis by blast
    qed
  qed
  (* the control points *)
  obtain uCP0 where uCP0: "vresize o2 (int (length P) + r) XYZW_zero = (Inr uCP0 :: buffers error + XYZW list)"
      and c0: "length uCP0 = length P + nat r"
    using vresize_ok [of "int (length P) + r" o2 XYZW_zero, where ?'b = buffers] r1 by (auto simp: nat_add_distrib)
  have cg0: "agrees_on ?C {} uCP0" by (simp add: agrees_on_def)
  have low: "?C m = ctrl_at P m" if "m \<le> k - p" for m
  proof -
    have "ctrls_inserted ?u k x (nat p) (ctrl_at P) (0 + nat r) m = ctrls_inserted ?u k x (nat p) (ctrl_at P) 0 m"
      by (rule ctrls_inserted_low) (use that p in auto)
    then show ?thesis by simp
  qed
  have high: "?C (m + r) = ctrl_at P m" if "k - s \<le> m" for m
  proof -
    have "ctrls_inserted ?u k x (nat p) (ctrl_at P) (0 + nat r) (m + int (nat r)) = ctrls_inserted ?u k x (nat p) (ctrl_at P) 0 m"
      by (rule ctrls_inserted_high [OF mult]) (use that p r1 in auto)
    then show ?thesis using r1 by simp
  qed
  have "\<exists>d'. forE [0..k - p] (\<lambda>i uCP. bindE (vget P i) (\<lambda>c. vset uCP i c)) uCP0
           = (Inr d' :: buffers error + XYZW list) \<and> length d' = length P + nat r
          \<and> agrees_on ?C ({} \<union> (\<lambda>i. i) ` {0..k - p}) d'"
  proof (rule forE_fill [OF cg0 c0])
    show "0 \<le> k - p + 1" using k p by simp
  next
    fix i and d :: "XYZW list" assume i: "0 \<le> i" "i \<le> k - p" and d: "length d = length P + nat r"
    have "vget P i = (Inr (?C i) :: buffers error + XYZW)"
      using i k p low [of i] by (simp add: vget_ok ctrl_at_nth)
    moreover have "vset d i (?C i) = (Inr (d[nat i := ?C i]) :: buffers error + XYZW list)"
      by (rule vset_ok) (use i k p d in auto)
    ultimately show "bindE (vget P i) (\<lambda>c. vset d i c) = (Inr (d[nat i := ?C i]) :: buffers error + XYZW list)
         \<and> 0 \<le> i \<and> i < int (length P + nat r)"
      using i k p by simp
  qed
  then obtain uCP1 where uCP1: "forE [0..k - p] (\<lambda>i uCP. bindE (vget P i) (\<lambda>c. vset uCP i c)) uCP0
           = (Inr uCP1 :: buffers error + XYZW list)" and c1: "length uCP1 = length P + nat r"
      and cg1: "agrees_on ?C ({} \<union> (\<lambda>i. i) ` {0..k - p}) uCP1" by blast
  have us2: "upto_size (k - s) (length P) = [k - s..int (length P) - 1]"
    using k p sp by (simp add: upto_size_def)
  have "\<exists>d'. forE [k - s..int (length P) - 1] (\<lambda>i uCP. bindE (vget P i) (\<lambda>c. vset uCP (i + r) c)) uCP1
           = (Inr d' :: buffers error + XYZW list) \<and> length d' = length P + nat r
          \<and> agrees_on ?C (({} \<union> (\<lambda>i. i) ` {0..k - p}) \<union> (\<lambda>i. i + r) ` {k - s..int (length P) - 1}) d'"
  proof (rule forE_fill [OF cg1 c1])
    show "k - s \<le> int (length P) - 1 + 1" using k s0 by simp
  next
    fix i and d :: "XYZW list" assume i: "k - s \<le> i" "i \<le> int (length P) - 1" and d: "length d = length P + nat r"
    have "vget P i = (Inr (?C (i + r)) :: buffers error + XYZW)"
      using i k p sp high [of i] by (simp add: vget_ok ctrl_at_nth)
    moreover have "vset d (i + r) (?C (i + r)) = (Inr (d[nat (i + r) := ?C (i + r)]) :: buffers error + XYZW list)"
      by (rule vset_ok) (use i k p sp r1 d in auto)
    ultimately show "bindE (vget P i) (\<lambda>c. vset d (i + r) c) = (Inr (d[nat (i + r) := ?C (i + r)]) :: buffers error + XYZW list)
         \<and> 0 \<le> i + r \<and> i + r < int (length P + nat r)"
      using i k p sp r1 by simp
  qed
  then obtain uCP2 where uCP2: "forE [k - s..int (length P) - 1] (\<lambda>i uCP. bindE (vget P i) (\<lambda>c. vset uCP (i + r) c)) uCP1
           = (Inr uCP2 :: buffers error + XYZW list)" and c2: "length uCP2 = length P + nat r"
      and cg2: "agrees_on ?C (({} \<union> (\<lambda>i. i) ` {0..k - p}) \<union> (\<lambda>i. i + r) ` {k - s..int (length P) - 1}) uCP2" by blast
  obtain temp0 where temp0: "vresize [] (p - s + 1) XYZW_zero = (Inr temp0 :: buffers error + XYZW list)"
      and t0: "length temp0 = nat (p - s + 1)"
    using vresize_ok [of "p - s + 1" "[]" XYZW_zero, where ?'b = buffers] sp by auto
  have tg0: "agrees_on (\<lambda>i. ctrl_at P (k - p + i)) {} temp0" by (simp add: agrees_on_def)
  have "\<exists>d'. forE [0..p - s] (\<lambda>i temp. bindE (vget P (k - p + i)) (\<lambda>c. vset temp i c)) temp0
           = (Inr d' :: buffers error + XYZW list) \<and> length d' = nat (p - s + 1)
          \<and> agrees_on (\<lambda>i. ctrl_at P (k - p + i)) ({} \<union> (\<lambda>i. i) ` {0..p - s}) d'"
  proof (rule forE_fill [OF tg0 t0])
    show "0 \<le> p - s + 1" using sp by simp
  next
    fix i and d :: "XYZW list" assume i: "0 \<le> i" "i \<le> p - s" and d: "length d = nat (p - s + 1)"
    have "vget P (k - p + i) = (Inr (ctrl_at P (k - p + i)) :: buffers error + XYZW)"
      using i k p s0 by (simp add: vget_ok ctrl_at_nth)
    moreover have "vset d i (ctrl_at P (k - p + i)) = (Inr (d[nat i := ctrl_at P (k - p + i)]) :: buffers error + XYZW list)"
      by (rule vset_ok) (use i d in auto)
    ultimately show "bindE (vget P (k - p + i)) (\<lambda>c. vset d i c) = (Inr (d[nat i := ctrl_at P (k - p + i)]) :: buffers error + XYZW list)
         \<and> 0 \<le> i \<and> i < int (nat (p - s + 1))"
      using i by simp
  qed
  then obtain temp1 where temp1: "forE [0..p - s] (\<lambda>i temp. bindE (vget P (k - p + i)) (\<lambda>c. vset temp i c)) temp0
           = (Inr temp1 :: buffers error + XYZW list)" and t1: "length temp1 = nat (p - s + 1)"
      and tg1: "agrees_on (\<lambda>i. ctrl_at P (k - p + i)) ({} \<union> (\<lambda>i. i) ` {0..p - s}) temp1" by blast
  have t1v: "temp1 ! nat i = ctrl_at P (k - p + i)" if "0 \<le> i" "i \<le> p - s" for i
    using tg1 that by (auto simp: agrees_on_def)
  have kr: "k + r \<le> int (length P + nat r)" using k r1 by simp
  obtain temp2 uCP3 where rounds: "forE [1..r] (\<lambda>j (L0, temp, uCP).
                bindE (forE [0..p - j - s] (\<lambda>i temp.
                         bindE (vget U (k - p + j + i)) (\<lambda>uLi.
                         bindE (vget U (i + k + 1)) (\<lambda>uik.
                           bindE (vget temp (i + 1)) (\<lambda>t1.
                           bindE (vget temp i) (\<lambda>t0.
                           vset temp i
                             (XYZW_add (XYZW_scale ((x - uLi) / (uik - uLi)) t1)
                                (XYZW_scale (1 - (x - uLi) / (uik - uLi)) t0)))))))
                       temp) (\<lambda>temp'.
                bindE (vget temp' 0) (\<lambda>t0.
                bindE (vset uCP (k - p + j) t0) (\<lambda>uCP'.
                bindE (vget temp' (p - j - s)) (\<lambda>td.
                bindE (vset uCP' (k + r - j - s) td)
                  (\<lambda>uCP''. Inr (k - p + j, temp', uCP'')))))))
                (0, temp1, uCP2) = (Inr (k - p + r, temp2, uCP3) :: buffers error + int \<times> XYZW list \<times> XYZW list)"
      and t2: "length temp2 = nat (p - s + 1)"
      and t2v: "\<And>i. 0 \<le> i \<Longrightarrow> i \<le> p - s - r \<Longrightarrow> temp2 ! nat i = ?C (k - p + r + i)"
      and c3: "length uCP3 = length P + nat r"
      and cg3: "agrees_on ?C ((({} \<union> (\<lambda>i. i) ` {0..k - p}) \<union> (\<lambda>i. i + r) ` {k - s..int (length P) - 1})
                  \<union> {k - p + 1..k - p + r} \<union> {k - s..k - s + r - 1}) uCP3"
    using InsertKnot_rounds [OF r1 s0 k(1) kU(1) mult t1 t1v c2 kr cg2, where ?'b = buffers]
    by blast
  have "\<exists>uCP4. forE [k - p + r + 1..k - s - 1] (\<lambda>i uCP.
                bindE (vget temp2 (i - (k - p + r))) (\<lambda>c. vset uCP i c)) uCP3
          = (Inr uCP4 :: buffers error + XYZW list) \<and> length uCP4 = length P + nat r
          \<and> agrees_on ?C {0..int (length P) + r - 1} uCP4"
  proof (cases "r = p - s")
    case True
    then have e: "[k - p + r + 1..k - s - 1] = []" by simp
    have "agrees_on ?C {0..int (length P) + r - 1} uCP3"
    proof (rule agrees_on_mono [OF cg3], rule subsetI)
      fix m assume m: "m \<in> {0..int (length P) + r - 1}"
      consider "m \<le> k - p" | "k - p < m" "m < k - s" | "k - s \<le> m" "m < k - s + r" | "k - s + r \<le> m"
        by linarith
      then show "m \<in> (({} \<union> (\<lambda>i. i) ` {0..k - p}) \<union> (\<lambda>i. i + r) ` {k - s..int (length P) - 1})
                  \<union> {k - p + 1..k - p + r} \<union> {k - s..k - s + r - 1}"
      proof cases
        case 1
        then show ?thesis using m by auto
      next
        case 2
        then show ?thesis using True by auto
      next
        case 3
        then show ?thesis by auto
      next
        case 4
        then have "m = (m - r) + r" "m - r \<in> {k - s..int (length P) - 1}" using m by auto
        then show ?thesis by blast
      qed
    qed
    then show ?thesis unfolding e using c3 by simp
  next
    case False
    have "\<exists>d'. forE [k - p + r + 1..k - s - 1] (\<lambda>i uCP.
                bindE (vget temp2 (i - (k - p + r))) (\<lambda>c. vset uCP i c)) uCP3
           = (Inr d' :: buffers error + XYZW list) \<and> length d' = length P + nat r
          \<and> agrees_on ?C (((({} \<union> (\<lambda>i. i) ` {0..k - p}) \<union> (\<lambda>i. i + r) ` {k - s..int (length P) - 1})
                  \<union> {k - p + 1..k - p + r} \<union> {k - s..k - s + r - 1}) \<union> (\<lambda>i. i) ` {k - p + r + 1..k - s - 1}) d'"
    proof (rule forE_fill [OF cg3 c3])
      show "k - p + r + 1 \<le> k - s - 1 + 1" using False r1 by simp
    next
      fix i and d :: "XYZW list" assume i: "k - p + r + 1 \<le> i" "i \<le> k - s - 1" and d: "length d = length P + nat r"
      have "temp2 ! nat (i - (k - p + r)) = ?C (k - p + r + (i - (k - p + r)))"
        by (rule t2v) (use i in auto)
      then have "vget temp2 (i - (k - p + r)) = (Inr (?C i) :: buffers error + XYZW)"
        using i t2 r1 s0 sp by (simp add: vget_ok)
      moreover have "vset d i (?C i) = (Inr (d[nat i := ?C i]) :: buffers error + XYZW list)"
        by (rule vset_ok) (use i k p s0 r1 d in auto)
      ultimately show "bindE (vget temp2 (i - (k - p + r))) (\<lambda>c. vset d i c) = (Inr (d[nat i := ?C i]) :: buffers error + XYZW list)
         \<and> 0 \<le> i \<and> i < int (length P + nat r)"
        using i k p s0 r1 by simp
    qed
    then obtain uCP4 where uCP4: "forE [k - p + r + 1..k - s - 1] (\<lambda>i uCP.
                bindE (vget temp2 (i - (k - p + r))) (\<lambda>c. vset uCP i c)) uCP3
           = (Inr uCP4 :: buffers error + XYZW list)" and c4: "length uCP4 = length P + nat r"
      and cg4: "agrees_on ?C (((({} \<union> (\<lambda>i. i) ` {0..k - p}) \<union> (\<lambda>i. i + r) ` {k - s..int (length P) - 1})
                  \<union> {k - p + 1..k - p + r} \<union> {k - s..k - s + r - 1}) \<union> (\<lambda>i. i) ` {k - p + r + 1..k - s - 1}) uCP4"
      by blast
    have "agrees_on ?C {0..int (length P) + r - 1} uCP4"
    proof (rule agrees_on_mono [OF cg4], rule subsetI)
      fix m assume m: "m \<in> {0..int (length P) + r - 1}"
      consider "m \<le> k - p" | "k - p < m" "m \<le> k - p + r" | "k - p + r < m" "m < k - s"
        | "k - s \<le> m" "m < k - s + r" | "k - s + r \<le> m"
        by linarith
      then show "m \<in> ((({} \<union> (\<lambda>i. i) ` {0..k - p}) \<union> (\<lambda>i. i + r) ` {k - s..int (length P) - 1})
                  \<union> {k - p + 1..k - p + r} \<union> {k - s..k - s + r - 1}) \<union> (\<lambda>i. i) ` {k - p + r + 1..k - s - 1}"
      proof cases
        case 1
        then show ?thesis using m by auto
      next
        case 2
        then show ?thesis by auto
      next
        case 3
        then show ?thesis by auto
      next
        case 4
        then show ?thesis by auto
      next
        case 5
        then have "m = (m - r) + r" "m - r \<in> {k - s..int (length P) - 1}" using m by auto
        then show ?thesis by blast
      qed
    qed
    then show ?thesis using uCP4 c4 by blast
  qed
  then obtain uCP4 where uCP4: "forE [k - p + r + 1..k - s - 1] (\<lambda>i uCP.
                bindE (vget temp2 (i - (k - p + r))) (\<lambda>c. vset uCP i c)) uCP3
          = (Inr uCP4 :: buffers error + XYZW list)" and c4: "length uCP4 = length P + nat r"
      and agP: "agrees_on ?C {0..int (length P) + r - 1} uCP4" by blast
  have v: "VALIDATE_ARGUMENT True b rest = rest" for rest :: "buffers error + buffers" and b
    by (simp add: VALIDATE_ARGUMENT_def)
  have conds: "(p > 0) = True" "(length U > 0) = True" "IsValidKnotVector U = True"
      "(length P > 0) = True" "IsValidNurbs p (length U) (length P) = True" "(r0 > 0) = True"
    using p lU lP sorted len r0 by (simp_all add: IsValidKnotVector_def IsValidNurbs_def)
  have ia: "int_add s r0 = (Inr (s + r0) :: buffers error + int)"
    using nov s0 r0 by (simp add: int_add_def)
  have "InsertKnot p U P x r0 out = Inr (iKV3, uCP4)"
    unfolding InsertKnot_def Let_def conds v span bindE_Inr s [symmetric] ia r [symmetric]
      out prod.case
      iKV0 iKV1 iKV2 us1 iKV3 uCP0 uCP1 us2 uCP2 temp0 temp1 rounds uCP4
    by (rule refl)
  then show ?thesis using l3 c4 agU agP by blast
qed

subsection \<open>From the buffers back to the curve\<close>

lemma knot_at_of_agree:
  assumes "agrees_on T {0..int (length V) - 1} V" "V \<noteq> []"
    and "\<And>i. i < 0 \<Longrightarrow> T i = T 0"
    and "\<And>i. int (length V) \<le> i \<Longrightarrow> T i = T (int (length V) - 1)"
  shows "knot_at V = T"
proof
  fix i
  have l: "last V = V ! nat (int (length V) - 1)"
  proof -
    have "nat (int (length V) - 1) = length V - 1" by simp
    then show ?thesis using assms(2) by (simp add: last_conv_nth)
  qed
  have a: "\<And>m. 0 \<le> m \<Longrightarrow> m < int (length V) \<Longrightarrow> V ! nat m = T m"
    using assms(1) by (simp add: agrees_on_def)
  have len: "0 < int (length V)" using assms(2) by simp
  show "knot_at V i = T i"
  proof (cases "i < 0")
    case True
    then show ?thesis using a [of 0] len assms(3) by (simp add: knot_at_def)
  next
    case False
    show ?thesis
    proof (cases "int (length V) \<le> i")
      case True
      then show ?thesis using a [of "int (length V) - 1"] len assms(4) l False
        by (simp add: knot_at_def)
    next
      case F: False
      then show ?thesis using a [of i] False by (simp add: knot_at_def)
    qed
  qed
qed

lemma ctrl_at_of_agree:
  assumes "agrees_on T {0..int (length V) - 1} V"
    and "\<And>i. i < 0 \<Longrightarrow> T i = 0"
    and "\<And>i. int (length V) \<le> i \<Longrightarrow> T i = 0"
  shows "ctrl_at V = T"
proof
  fix i
  have a: "\<And>m. 0 \<le> m \<Longrightarrow> m < int (length V) \<Longrightarrow> V ! nat m = T m"
    using assms(1) by (simp add: agrees_on_def)
  show "ctrl_at V i = T i"
    using a [of i] assms(2,3) [of i] by (auto simp: ctrl_at_def)
qed



lemma multiplicity_block:
  assumes sorted: "sorted U" and k: "0 \<le> k" "k + 1 < int (length U)"
    and x: "U ! nat k \<le> x" "x < U ! nat (k + 1)"
    and i: "k - int (length (filter (\<lambda>u. u = x) U)) < i" "i \<le> k" "0 \<le> i"
  shows "U ! nat i = x"
proof (rule ccontr)
  assume ne: "U ! nat i \<noteq> x"
  have nth: "\<And>a b. a \<le> b \<Longrightarrow> b < length U \<Longrightarrow> U ! a \<le> U ! b"
    using sorted by (simp add: sorted_iff_nth_mono)
  have sub: "{j. j < length U \<and> U ! j = x} \<subseteq> {nat i + 1..nat k}"
  proof
    fix j assume "j \<in> {j. j < length U \<and> U ! j = x}"
    then have j: "j < length U" "U ! j = x" by auto
    have "j \<le> nat k"
    proof (rule ccontr)
      assume "\<not> j \<le> nat k"
      then have "nat (k + 1) \<le> j" using k by linarith
      then have "U ! nat (k + 1) \<le> U ! j" using j by (intro nth) auto
      then show False using x j by simp
    qed
    moreover have "nat i < j"
    proof (rule ccontr)
      assume "\<not> nat i < j"
      then have "j \<le> nat i" by simp
      then have "U ! j \<le> U ! nat i" using i k by (intro nth) auto
      moreover have "U ! nat i \<le> U ! nat k" using i k by (intro nth) auto
      ultimately show False using j x ne by simp
    qed
    ultimately show "j \<in> {nat i + 1..nat k}" by simp
  qed
  have "length (filter (\<lambda>u. u = x) U) = card {j. j < length U \<and> U ! j = x}"
    by (rule length_filter_conv_card)
  also have "\<dots> \<le> card {nat i + 1..nat k}"
    by (rule card_mono [OF _ sub]) simp
  also have "\<dots> = nat k - nat i" by simp
  finally show False using i k by linarith
qed

subsection \<open>The weight of a point of the curve\<close>








subsection \<open>InsertKnot on the domain of the curve\<close>

lemma InsertKnot_functions:
  assumes p: "0 < p" and sorted: "sorted U"
    and len: "int (length U) = int (length P) + p + 1" and P: "P \<noteq> []" and r0: "0 < r0"
    and span: "GetKnotSpanIndex p U x = (Inr k :: buffers error + int)"
    and k: "p \<le> k" "k < int (length P)"
    and s: "s = GetKnotMultiplicity U x" and sp: "s < p"
    and mult: "\<And>i. k - s < i \<Longrightarrow> i \<le> k \<Longrightarrow> knot_at U i = x"
    and nov: "s + r0 \<le> 2147483647"
    and r: "r = (if s + r0 > p then p - s else r0)"
  shows "\<exists>U' P'. InsertKnot p U P x r0 out = Inr (U', P')
     \<and> int (length U') = int (length U) + r \<and> int (length P') = int (length P) + r
     \<and> knot_at U' = knots_inserted (knot_at U) k x (nat r)
     \<and> ctrl_at P' = ctrls_inserted (knot_at U) k x (nat p) (ctrl_at P) (nat r)"
proof -
  let ?u = "knot_at U"
  let ?T = "knots_inserted ?u k x (nat r)"
  let ?C = "ctrls_inserted ?u k x (nat p) (ctrl_at P) (nat r)"
  have s0: "0 \<le> s" by (simp add: s GetKnotMultiplicity_def)
  have r1: "1 \<le> r" "r \<le> p - s" using r r0 sp by auto
  obtain U' P' where call: "InsertKnot p U P x r0 out = Inr (U', P')"
    and lU: "length U' = length U + nat r" and lP: "length P' = length P + nat r"
    and aU: "agrees_on ?T {0..int (length U) + r - 1} U'"
    and aP: "agrees_on ?C {0..int (length P) + r - 1} P'"
    using InsertKnot_inserts [OF p sorted len P r0 span k s sp mult nov r] by blast
  have lU': "int (length U') = int (length U) + r" using lU r1 by simp
  have lP': "int (length P') = int (length P) + r" using lP r1 by simp
  have Une: "U \<noteq> []" using len p by auto
  have lastU: "last U = ?u (int (length U) - 1)"
  proof -
    have "nat (int (length U) - 1) = length U - 1" by simp
    then show ?thesis using Une by (simp add: knot_at_def last_conv_nth)
  qed
  have "knot_at U' = ?T"
  proof (rule knot_at_of_agree)
    show "agrees_on ?T {0..int (length U') - 1} U'" using aU unfolding lU' .
    show "U' \<noteq> []" using lU Une by auto
  next
    fix i :: int assume "i < 0"
    then show "?T i = ?T 0" using k p Une by (simp add: knots_inserted_closed knot_at_def)
  next
    fix i :: int assume i: "int (length U') \<le> i"
    have nr: "int (nat r) = r" using r1 by simp
    have a: "\<not> i \<le> k" "\<not> i \<le> k + r" "\<not> int (length U') - 1 \<le> k"
        "\<not> int (length U') - 1 \<le> k + r"
      using i lU' k len p r1 by auto
    have Ti: "?T i = ?u (i - r)" unfolding knots_inserted_closed nr using a by simp
    have Tl: "?T (int (length U') - 1) = ?u (int (length U') - 1 - r)"
      unfolding knots_inserted_closed nr using a by simp
    have e: "int (length U') - 1 - r = int (length U) - 1" using lU' by simp
    have "?u (i - r) = last U" using i lU' by (simp add: knot_at_def)
    then show "?T i = ?T (int (length U') - 1)"
      unfolding Ti Tl e lastU .
  qed
  moreover have "ctrl_at P' = ?C"
  proof (rule ctrl_at_of_agree)
    show "agrees_on ?C {0..int (length P') - 1} P'" using aP unfolding lP' .
  next
    fix i :: int assume i: "i < 0"
    have "ctrls_inserted ?u k x (nat p) (ctrl_at P) (0 + nat r) i = ctrls_inserted ?u k x (nat p) (ctrl_at P) 0 i"
      by (rule ctrls_inserted_low) (use i k p in auto)
    then show "?C i = 0" using i by (simp add: ctrl_at_def)
  next
    fix i :: int assume i: "int (length P') \<le> i"
    have "ctrls_inserted ?u k x (nat p) (ctrl_at P) (0 + nat r) ((i - r) + int (nat r)) = ctrls_inserted ?u k x (nat p) (ctrl_at P) 0 (i - r)"
      by (rule ctrls_inserted_high [OF mult]) (use i lP' k p r1 s0 in auto)
    then show "?C i = 0" using i lP' r1 by (simp add: ctrl_at_def)
  qed
  ultimately show ?thesis using call lU' lP' by blast
qed

lemma sorted_of_mono_kn:
  assumes "mono (knot_at V)"
  shows "sorted V"
  unfolding sorted_iff_nth_mono
proof (intro allI impI)
  fix i j assume ij: "i \<le> j" "j < length V"
  have "knot_at V (int i) \<le> knot_at V (int j)" using assms ij by (simp add: monoD)
  then show "V ! i \<le> V ! j" using ij by (simp add: knot_at_def)
qed

text \<open>The span and the multiplicity that \<^verbatim>\<open>InsertKnot\<close> computes for a value of the
  half-open domain.\<close>

lemma InsertKnot_value_span:
  assumes p: "0 < p" and sorted: "sorted U"
    and len: "int (length U) = int (length P) + p + 1"
    and x: "U ! nat p \<le> x" "x < U ! length P"
    and tol: "\<forall>u\<in>set U. IsAlmostEqualTo u x \<longrightarrow> u = x"
    and sp: "GetKnotMultiplicity U x < p"
  shows "\<exists>k. GetKnotSpanIndex p U x = (Inr k :: 'b error + int) \<and> p \<le> k \<and> k < int (length P)
          \<and> knot_at U k \<le> x \<and> x < knot_at U (k + 1)
          \<and> (\<forall>i. k - GetKnotMultiplicity U x < i \<and> i \<le> k \<longrightarrow> knot_at U i = x)"
proof -
  have nth: "\<And>a b. a \<le> b \<Longrightarrow> b < length U \<Longrightarrow> U ! a \<le> U ! b"
    using sorted by (simp add: sorted_iff_nth_mono)
  have pP: "p < int (length P)"
  proof (rule ccontr)
    assume "\<not> p < int (length P)"
    then have "U ! length P \<le> U ! nat p" using len p by (intro nth) auto
    then show False using x by simp
  qed
  have lp: "2 * p + 2 \<le> int (length U)" using pP len by simp
  have e1: "nat (int (length U) - p - 1) = length P" using len by simp
  have p0: "0 \<le> p" using p by simp
  have xx: "x < U ! nat (int (length U) - p - 1)" unfolding e1 by (rule x)
  obtain k where span: "GetKnotSpanIndex p U x = (Inr k :: 'b error + int)"
    and k: "p \<le> k" "k \<le> int (length U) - p - 2"
    and kx: "U ! nat k \<le> x" "x < U ! nat (k + 1)"
    using GetKnotSpanIndex_inside [OF p0 lp x(1) xx, where ?'b = 'b] by blast
  have kP: "k < int (length P)" using k len by simp
  have kU: "k + 1 < int (length U)" using k len p by simp
  define s where "s = GetKnotMultiplicity U x"
  have filt: "filter (\<lambda>u. IsAlmostEqualTo u x) U = filter (\<lambda>u. u = x) U"
    by (rule filter_cong) (use tol in \<open>auto simp: IsAlmostEqualTo_def DoubleEpsilon_def\<close>)
  have s': "s = int (length (filter (\<lambda>u. u = x) U))"
    by (simp add: s_def GetKnotMultiplicity_def filt)
  have ssp: "s < p" using sp by (simp add: s_def)
  have mult: "knot_at U i = x" if "k - s < i" "i \<le> k" for i
  proof -
    have i0: "0 \<le> i" using that ssp k by simp
    have "U ! nat i = x"
      by (rule multiplicity_block [OF sorted _ kU kx]) (use that i0 k p s' in auto)
    then show ?thesis using i0 that kU by (simp add: knot_at_nth)
  qed
  have ux: "knot_at U k \<le> x" "x < knot_at U (k + 1)" using kx k p kU by (simp_all add: knot_at_nth)
  show ?thesis using span k(1) kP ux mult unfolding s_def by blast
qed

text \<open>For a value of the half-open domain with multiplicity below the degree the call
  returns, the buffers grow by the clamped count, and the result is a valid curve again.\<close>

lemma InsertKnot_lengths:
  assumes p: "0 < p" and sorted: "sorted U"
    and len: "int (length U) = int (length P) + p + 1" and r0: "0 < r0"
    and x: "U ! nat p \<le> x" "x < U ! length P"
    and tol: "\<forall>u\<in>set U. IsAlmostEqualTo u x \<longrightarrow> u = x"
    and sp: "GetKnotMultiplicity U x < p"
    and nov: "GetKnotMultiplicity U x + r0 \<le> 2147483647"
  shows "\<exists>U' P'. InsertKnot p U P x r0 out = Inr (U', P')
     \<and> int (length U') = int (length U)
          + (if GetKnotMultiplicity U x + r0 > p then p - GetKnotMultiplicity U x else r0)
     \<and> int (length P') = int (length P)
          + (if GetKnotMultiplicity U x + r0 > p then p - GetKnotMultiplicity U x else r0)
     \<and> int (length U') = int (length P') + p + 1 \<and> sorted U'"
proof -
  obtain k where span: "GetKnotSpanIndex p U x = (Inr k :: buffers error + int)"
    and k: "p \<le> k" "k < int (length P)" and ux: "knot_at U k \<le> x" "x < knot_at U (k + 1)"
    and mult: "\<And>i. k - GetKnotMultiplicity U x < i \<Longrightarrow> i \<le> k \<Longrightarrow> knot_at U i = x"
    using InsertKnot_value_span [OF p sorted len x tol sp, where ?'b = buffers] by blast
  have P: "P \<noteq> []" using k p by auto
  have Une: "U \<noteq> []" using len p by auto
  obtain U' P' where call: "InsertKnot p U P x r0 out = Inr (U', P')"
    and lU': "int (length U') = int (length U)
          + (if GetKnotMultiplicity U x + r0 > p then p - GetKnotMultiplicity U x else r0)"
    and lP': "int (length P') = int (length P)
          + (if GetKnotMultiplicity U x + r0 > p then p - GetKnotMultiplicity U x else r0)"
    and knU': "knot_at U' = knots_inserted (knot_at U) k x
          (nat (if GetKnotMultiplicity U x + r0 > p then p - GetKnotMultiplicity U x else r0))"
    using InsertKnot_functions [OF p sorted len P r0 span k refl sp mult nov refl] by blast
  have "mono (knot_at U')" unfolding knU' by (rule knots_inserted_mono [OF knot_at_mono [OF sorted Une] ux])
  then have "sorted U'" by (rule sorted_of_mono_kn)
  moreover have "int (length U') = int (length P') + p + 1" using lU' lP' len by simp
  ultimately show ?thesis using call lU' lP' by blast
qed





text \<open>Inside the domain the multiplicity is counted with the coordinate tolerance. On the
  clamped cubic with the knots \<open>0, 0, 0, 0, 1, 1 + d, 2, 2, 2, 2\<close>, \<open>d = 1/20000000000\<close>, the value
  \<open>1\<close> is counted twice, the insertion proceeds as if the knot before \<open>1\<close> were \<open>1\<close> as well,
  and the point at \<open>t = 1/2\<close> moves by about \<open>1/16\<close> in both coordinates.\<close>

lemma InsertKnot_near_knot_moves_point:
  "GetKnotMultiplicity [0, 0, 0, 0, 1, 1 + 1 / 20000000000, 2, 2, 2, 2] 1 = 2
   \<and> GetPointOnCurve 3 [0, 0, 0, 0, 1, 1 + 1 / 20000000000, 2, 2, 2, 2] (1 / 2)
       [XYZW 0 0 0 1, XYZW 1 1 0 1, XYZW 2 0 0 1, XYZW 3 1 0 1, XYZW 4 0 0 1, XYZW 5 1 0 1]
     = Inr (XYZ (4600000000390000000007 / 3200000000320000000008)
                (1400000000190000000007 / 3200000000320000000008) 0)
   \<and> (case InsertKnot 3 [0, 0, 0, 0, 1, 1 + 1 / 20000000000, 2, 2, 2, 2]
          [XYZW 0 0 0 1, XYZW 1 1 0 1, XYZW 2 0 0 1, XYZW 3 1 0 1, XYZW 4 0 0 1, XYZW 5 1 0 1]
          1 1 ([], []) of
        Inl e \<Rightarrow> Inl (InvalidArgument ())
      | Inr (U', P') \<Rightarrow> GetPointOnCurve 3 U' (1 / 2) P')
     = Inr (XYZ (4400000000380000000007 / 3200000000320000000008)
                (1200000000180000000007 / 3200000000320000000008) 0)"
  by code_simp

end
